theory Spec2Isabelle
  imports Complex_Main "HOL-Library.Multiset" "HOL-Library.Sublist"
begin

section \<open>Python values used by the server code\<close>

text \<open>
  Exceptions of the Python code are values: every function of the source that can raise
  returns \<open>py_error + 'a\<close>, with \<open>Inl\<close> carrying the exception.
\<close>

datatype py_error = ValueError | IndexError | AssertionError | FileNotFoundError | TypeError

text \<open>\<^verbatim>\<open>str.split(sep)\<close> for a one-character separator: the pieces between the
  separators, always at least one piece.\<close>

fun split_sep :: "char \<Rightarrow> string \<Rightarrow> string list" where
  "split_sep c [] = [[]]"
| "split_sep c (x # xs) =
     (if x = c then [] # split_sep c xs
      else (case split_sep c xs of
              [] \<Rightarrow> [[x]]
            | w # ws \<Rightarrow> (x # w) # ws))"

text \<open>\<^verbatim>\<open>sep.join(pieces)\<close>.\<close>

fun join_sep :: "string \<Rightarrow> string list \<Rightarrow> string" where
  "join_sep s [] = []"
| "join_sep s [w] = w"
| "join_sep s (w # v # ws) = w @ s @ join_sep s (v # ws)"

text \<open>\<^verbatim>\<open>s.replace("-", "/")\<close> and \<^verbatim>\<open>s.count("-")\<close>.\<close>

definition replace_dash :: "string \<Rightarrow> string" where
  "replace_dash s = map (\<lambda>c. if c = CHR ''-'' then CHR ''/'' else c) s"

definition count_dash :: "string \<Rightarrow> nat" where
  "count_dash s = length (filter (\<lambda>c. c = CHR ''-'') s)"

section \<open>HTM geometry (logic/htm.py)\<close>

text \<open>
  Coordinates are Python floats in the source. The model computes with real numbers:
  the names, the order of the children and the control flow are those of the source,
  and rounding is not modelled.
\<close>

type_synonym coordinates_type = "real \<times> real \<times> real"
type_synonym triangle_type = "coordinates_type \<times> coordinates_type \<times> coordinates_type"

definition EPSILON :: real where
  "EPSILON = 1 / 2 ^ 52"

definition radians :: "real \<Rightarrow> real" where
  "radians deg = deg * pi / 180"

definition lat_lon_to_xyz :: "real \<Rightarrow> real \<Rightarrow> coordinates_type" where
  "lat_lon_to_xyz lat lon =
     (let lat_rad = radians lat;
          lon_rad = radians lon;
          x = cos lat_rad * cos lon_rad;
          y = cos lat_rad * sin lon_rad;
          z = sin lat_rad
      in (x, y, z))"

fun np_add :: "coordinates_type \<Rightarrow> coordinates_type \<Rightarrow> coordinates_type" where
  "np_add (a0, a1, a2) (b0, b1, b2) = (a0 + b0, a1 + b1, a2 + b2)"

fun np_norm :: "coordinates_type \<Rightarrow> real" where
  "np_norm (a0, a1, a2) = sqrt (a0 * a0 + a1 * a1 + a2 * a2)"

fun np_dot :: "coordinates_type \<Rightarrow> coordinates_type \<Rightarrow> real" where
  "np_dot (a0, a1, a2) (b0, b1, b2) = a0 * b0 + a1 * b1 + a2 * b2"

fun np_cross :: "coordinates_type \<Rightarrow> coordinates_type \<Rightarrow> coordinates_type" where
  "np_cross (a0, a1, a2) (b0, b1, b2) =
     (a1 * b2 - a2 * b1, a2 * b0 - a0 * b2, a0 * b1 - a1 * b0)"

fun midpoint_xyz :: "coordinates_type \<Rightarrow> coordinates_type \<Rightarrow> coordinates_type" where
  "midpoint_xyz xyz1 xyz2 =
     (case np_add xyz1 xyz2 of
        (s0, s1, s2) \<Rightarrow>
          (s0 / np_norm (s0, s1, s2), s1 / np_norm (s0, s1, s2), s2 / np_norm (s0, s1, s2)))"

record Trixel =
  name :: string
  vertices :: triangle_type

text \<open>\<^verbatim>\<open>Trixel.depth\<close>: the number of pieces of the name split at \<^verbatim>\<open>-\<close>.\<close>

definition depth :: "Trixel \<Rightarrow> int" where
  "depth t = int (length (split_sep CHR ''-'' (name t)))"

text \<open>\<^verbatim>\<open>Trixel.numba_contains\<close>: the three edge tests in the order of the source.\<close>

definition contains :: "Trixel \<Rightarrow> real \<Rightarrow> real \<Rightarrow> real \<Rightarrow> bool" where
  "contains t x y z =
     (case vertices t of
        (vert0, vert1, vert2) \<Rightarrow>
          (if np_dot (np_cross vert0 vert1) (x, y, z) < - EPSILON then False
           else if np_dot (np_cross vert1 vert2) (x, y, z) < - EPSILON then False
           else if np_dot (np_cross vert2 vert0) (x, y, z) < - EPSILON then False
           else True))"

text \<open>\<^verbatim>\<open>Trixel.get_subtrixels\<close>: the generator's four yields as a list, in order.\<close>

definition get_subtrixels :: "Trixel \<Rightarrow> Trixel list" where
  "get_subtrixels t =
     (case vertices t of
        (v0, v1, v2) \<Rightarrow>
          (let w0 = midpoint_xyz v1 v2;
               w1 = midpoint_xyz v2 v0;
               w2 = midpoint_xyz v0 v1
           in [\<lparr>name = name t @ ''-0'', vertices = (v0, w2, w1)\<rparr>,
               \<lparr>name = name t @ ''-1'', vertices = (v1, w0, w2)\<rparr>,
               \<lparr>name = name t @ ''-2'', vertices = (v2, w1, w0)\<rparr>,
               \<lparr>name = name t @ ''-3'', vertices = (w0, w1, w2)\<rparr>]))"

text \<open>The midpoint in the words of the specification: the normalised sum, where
  normalising scales a vector by the inverse of its Euclidean length.\<close>

definition spec_normalize :: "coordinates_type \<Rightarrow> coordinates_type" where
  "spec_normalize v =
     (inverse (sqrt ((fst v)\<^sup>2 + (fst (snd v))\<^sup>2 + (snd (snd v))\<^sup>2)) * fst v,
      inverse (sqrt ((fst v)\<^sup>2 + (fst (snd v))\<^sup>2 + (snd (snd v))\<^sup>2)) * fst (snd v),
      inverse (sqrt ((fst v)\<^sup>2 + (fst (snd v))\<^sup>2 + (snd (snd v))\<^sup>2)) * snd (snd v))"

definition spec_midpoint :: "coordinates_type \<Rightarrow> coordinates_type \<Rightarrow> coordinates_type" where
  "spec_midpoint a b =
     spec_normalize (fst a + fst b, fst (snd a) + fst (snd b), snd (snd a) + snd (snd b))"


fun expand_rounds :: "nat \<Rightarrow> Trixel list \<Rightarrow> Trixel list" where
  "expand_rounds 0 subtrixels = subtrixels"
| "expand_rounds (Suc k) subtrixels = expand_rounds k (concat (map get_subtrixels subtrixels))"

text \<open>\<^verbatim>\<open>Trixel.get_subtrixels_at_depth\<close>; \<^verbatim>\<open>range(depth - self_depth - 1)\<close> runs
  \<open>nat (depth - self_depth - 1)\<close> rounds.\<close>

definition get_subtrixels_at_depth :: "Trixel \<Rightarrow> int \<Rightarrow> py_error + Trixel list" where
  "get_subtrixels_at_depth t d =
     (if d < 1 then Inl ValueError
      else if depth t = d then Inr [t]
      else if depth t > d then Inl ValueError
      else Inr (expand_rounds (nat (d - depth t - 1)) (get_subtrixels t)))"

subsection \<open>The octahedron\<close>

definition octahedron_vertices :: "coordinates_type list" where
  "octahedron_vertices =
     [(0, 0, 1), (1, 0, 0), (0, 1, 0), (-1, 0, 0), (0, -1, 0), (0, 0, -1)]"

definition octahedron_N0 :: Trixel where
  "octahedron_N0 = \<lparr>name = ''N0'', vertices = ((1, 0, 0), (0, 0, 1), (0, -1, 0))\<rparr>"

definition octahedron_N1 :: Trixel where
  "octahedron_N1 = \<lparr>name = ''N1'', vertices = ((0, -1, 0), (0, 0, 1), (-1, 0, 0))\<rparr>"

definition octahedron_N2 :: Trixel where
  "octahedron_N2 = \<lparr>name = ''N2'', vertices = ((-1, 0, 0), (0, 0, 1), (0, 1, 0))\<rparr>"

definition octahedron_N3 :: Trixel where
  "octahedron_N3 = \<lparr>name = ''N3'', vertices = ((0, 1, 0), (0, 0, 1), (1, 0, 0))\<rparr>"

definition octahedron_S0 :: Trixel where
  "octahedron_S0 = \<lparr>name = ''S0'', vertices = ((1, 0, 0), (0, 0, -1), (0, 1, 0))\<rparr>"

definition octahedron_S1 :: Trixel where
  "octahedron_S1 = \<lparr>name = ''S1'', vertices = ((0, 1, 0), (0, 0, -1), (-1, 0, 0))\<rparr>"

definition octahedron_S2 :: Trixel where
  "octahedron_S2 = \<lparr>name = ''S2'', vertices = ((-1, 0, 0), (0, 0, -1), (0, -1, 0))\<rparr>"

definition octahedron_S3 :: Trixel where
  "octahedron_S3 = \<lparr>name = ''S3'', vertices = ((0, -1, 0), (0, 0, -1), (1, 0, 0))\<rparr>"

text \<open>The dictionary \<^verbatim>\<open>octahedron\<close>, in insertion order (the order of
  \<^verbatim>\<open>octahedron.values()\<close>).\<close>

definition octahedron :: "(string \<times> Trixel) list" where
  "octahedron =
     [(''N0'', octahedron_N0), (''N1'', octahedron_N1), (''N2'', octahedron_N2),
      (''N3'', octahedron_N3), (''S0'', octahedron_S0), (''S1'', octahedron_S1),
      (''S2'', octahedron_S2), (''S3'', octahedron_S3)]"

definition find_octahedron_trixel_from_xyz :: "real \<Rightarrow> real \<Rightarrow> real \<Rightarrow> Trixel" where
  "find_octahedron_trixel_from_xyz x y z =
     (if z > 0 then
        (if y > 0 then (if x > 0 then octahedron_N3 else octahedron_N2)
         else (if x > 0 then octahedron_N0 else octahedron_N1))
      else
        (if y > 0 then (if x > 0 then octahedron_S0 else octahedron_S1)
         else (if x > 0 then octahedron_S3 else octahedron_S2)))"

subsection \<open>Descent to a point and to a name\<close>

text \<open>The local function \<^verbatim>\<open>get_next\<close>: the first child that contains the point, or
  ValueError.\<close>

definition get_next :: "Trixel \<Rightarrow> real \<Rightarrow> real \<Rightarrow> real \<Rightarrow> py_error + Trixel" where
  "get_next trixel x y z =
     (case find (\<lambda>t. contains t x y z) (get_subtrixels trixel) of
        Some t \<Rightarrow> Inr t
      | None \<Rightarrow> Inl ValueError)"

fun descend_xyz :: "nat \<Rightarrow> Trixel \<Rightarrow> real \<Rightarrow> real \<Rightarrow> real \<Rightarrow> py_error + Trixel" where
  "descend_xyz 0 trixel x y z = Inr trixel"
| "descend_xyz (Suc k) trixel x y z =
     (case get_next trixel x y z of
        Inl e \<Rightarrow> Inl e
      | Inr t \<Rightarrow> descend_xyz k t x y z)"

definition find_trixel_from_xyz :: "real \<Rightarrow> real \<Rightarrow> real \<Rightarrow> int \<Rightarrow> py_error + Trixel" where
  "find_trixel_from_xyz x y z d =
     (if d < 1 then Inl ValueError
      else if d = 1 then Inr (find_octahedron_trixel_from_xyz x y z)
      else descend_xyz (nat (d - 1)) (find_octahedron_trixel_from_xyz x y z) x y z)"

definition find_trixel_from_lat_lon :: "real \<Rightarrow> real \<Rightarrow> int \<Rightarrow> py_error + Trixel" where
  "find_trixel_from_lat_lon lat lon d =
     (case lat_lon_to_xyz lat lon of (x, y, z) \<Rightarrow> find_trixel_from_xyz x y z d)"

text \<open>The loop of \<^verbatim>\<open>find_trixel_from_name\<close> over \<^verbatim>\<open>path[1:]\<close>; unpacking the
  children into four names fails unless there are exactly four.\<close>

fun descend_name :: "Trixel \<Rightarrow> string list \<Rightarrow> py_error + Trixel" where
  "descend_name trixel [] = Inr trixel"
| "descend_name trixel (p # ps) =
     (case get_subtrixels trixel of
        [t0, t1, t2, t3] \<Rightarrow>
          (if p = ''0'' then descend_name t0 ps
           else if p = ''1'' then descend_name t1 ps
           else if p = ''2'' then descend_name t2 ps
           else if p = ''3'' then descend_name t3 ps
           else Inl ValueError)
      | _ \<Rightarrow> Inl ValueError)"

definition find_trixel_from_name :: "string \<Rightarrow> py_error + Trixel" where
  "find_trixel_from_name n =
     (case split_sep CHR ''-'' n of
        [] \<Rightarrow> Inl ValueError
      | p0 # ps \<Rightarrow>
          (case map_of octahedron p0 of
             None \<Rightarrow> Inl ValueError
           | Some trixel \<Rightarrow> descend_name trixel ps))"

text \<open>The trixels reached from a root of the octahedron by subdivision.\<close>

inductive reachable :: "Trixel \<Rightarrow> bool" where
  root: "t \<in> set (map snd octahedron) \<Longrightarrow> reachable t"
| child: "reachable p \<Longrightarrow> t \<in> set (get_subtrixels p) \<Longrightarrow> reachable t"

subsection \<open>Classification of a trixel against a cap\<close>

record Halfspace =
  vector :: coordinates_type
  distance :: real

datatype HalfspaceIntersection = OUTSIDE | PARTIAL | FULL

text \<open>\<^verbatim>\<open>Halfspace.arcangle\<close>: \<^verbatim>\<open>math.acos\<close> raises ValueError outside \<open>[-1, 1]\<close>.\<close>

definition arcangle :: "Halfspace \<Rightarrow> py_error + real" where
  "arcangle h =
     (if - 1 \<le> distance h \<and> distance h \<le> 1 then Inr (arccos (distance h))
      else Inl ValueError)"

text \<open>
  \<^verbatim>\<open>angle_between_np_vectors\<close>. When a norm is zero, numpy's division gives a NaN, which
  the clamp \<^verbatim>\<open>max(-1.0, min(1.0, val))\<close> turns into 1.
\<close>

definition angle_between_np_vectors :: "coordinates_type \<Rightarrow> coordinates_type \<Rightarrow> real" where
  "angle_between_np_vectors v1 v2 =
     (if np_norm v1 * np_norm v2 = 0 then arccos 1
      else arccos (max (- 1) (min 1 (np_dot v1 v2 / (np_norm v1 * np_norm v2)))))"

fun np_sub :: "coordinates_type \<Rightarrow> coordinates_type \<Rightarrow> coordinates_type" where
  "np_sub (a0, a1, a2) (b0, b1, b2) = (a0 - b0, a1 - b1, a2 - b2)"

text \<open>
  \<^verbatim>\<open>np.roots([a, b, c])\<close>, as numpy documents it: leading zero coefficients are dropped,
  every trailing zero coefficient gives a root 0, and the other roots are the eigenvalues
  of the companion matrix, the complex roots of the polynomial that is left. A quadratic
  with a negative discriminant has a pair of conjugate complex roots. The order of the
  roots does not matter to the caller.
\<close>

definition quadratic_roots :: "real \<Rightarrow> real \<Rightarrow> real \<Rightarrow> complex list" where
  "quadratic_roots a b c =
     (if 0 \<le> b * b - 4 * a * c
      then [Complex ((- b + sqrt (b * b - 4 * a * c)) / (2 * a)) 0,
            Complex ((- b - sqrt (b * b - 4 * a * c)) / (2 * a)) 0]
      else [Complex (- b / (2 * a)) (sqrt (4 * a * c - b * b) / (2 * a)),
            Complex (- b / (2 * a)) (- (sqrt (4 * a * c - b * b) / (2 * a)))])"

definition np_roots :: "real \<Rightarrow> real \<Rightarrow> real \<Rightarrow> complex list" where
  "np_roots a b c =
     (if a \<noteq> 0 then
        (if c \<noteq> 0 then quadratic_roots a b c
         else if b \<noteq> 0 then [Complex (- b / a) 0, 0]
         else [0, 0])
      else if b \<noteq> 0 then
        (if c \<noteq> 0 then [Complex (- c / b) 0] else [0])
      else [])"

text \<open>numpy's \<^verbatim>\<open><=\<close> on complex numbers: by the real parts, and by the imaginary parts when
  the real parts are equal. On real numbers it is the usual order.\<close>

definition np_le :: "complex \<Rightarrow> complex \<Rightarrow> bool" where
  "np_le x y = (Re x < Re y \<or> (Re x = Re y \<and> Im x \<le> Im y))"

text \<open>The body of the loop over the sides of the triangle: whether some root \<open>s\<close> that
  \<^verbatim>\<open>np.roots\<close> returns passes \<^verbatim>\<open>0 <= s <= 1\<close>. The sides of a trixel are at most a
  quarter of a great circle, so the tangent of half the angle is at most 1; for two
  antipodal vertices the tangent of the reals is not the huge number of the floats.\<close>

definition side_has_root :: "coordinates_type \<Rightarrow> real \<Rightarrow> coordinates_type \<Rightarrow> coordinates_type \<Rightarrow> bool" where
  "side_has_root v d v_i v_j =
     (let theta_ij = angle_between_np_vectors v_i v_j;
          u = tan (theta_ij / 2);
          gamma_i = np_dot v v_i;
          gamma_j = np_dot v v_j;
          a = - (u\<^sup>2) * (gamma_i + d);
          b = gamma_i * (u\<^sup>2 - 1) + gamma_j * (u\<^sup>2 + 1);
          c = gamma_i - d
      in list_ex (\<lambda>s. np_le 0 s \<and> np_le s 1) (np_roots a b c))"

text \<open>
  \<^verbatim>\<open>Trixel.intersects_halfspace\<close>, in real arithmetic. A triangle whose plane normal is
  the zero vector makes the source compute with NaN; the model does not follow that and
  answers with the marker \<open>NaN_Not_Modelled\<close>.
\<close>

datatype classification = Classified HalfspaceIntersection | Raised py_error | NaN_Not_Modelled

definition intersects_halfspace :: "Trixel \<Rightarrow> Halfspace \<Rightarrow> classification" where
  "intersects_halfspace t h =
     (case vertices t of
        (v0, v1, v2) \<Rightarrow>
          (let v = vector h;
               d = distance h;
               v0_inside = (np_dot v v0 > d);
               v1_inside = (np_dot v v1 > d);
               v2_inside = (np_dot v v2 > d)
           in if v0_inside \<and> v1_inside \<and> v2_inside then Classified FULL
              else if v0_inside \<or> v1_inside \<or> v2_inside then Classified PARTIAL
              else if np_norm (np_cross (np_sub v1 v0) (np_sub v2 v1)) = 0 then NaN_Not_Modelled
              else
                (let n = np_cross (np_sub v1 v0) (np_sub v2 v1);
                     v_bounding = (fst n / np_norm n, fst (snd n) / np_norm n,
                                   snd (snd n) / np_norm n);
                     d_bounding = np_dot v0 v_bounding;
                     theta_bounding = angle_between_np_vectors v v_bounding
                 in case arcangle h of
                      Inl e \<Rightarrow> Raised e
                    | Inr arc_h \<Rightarrow>
                        (case arcangle \<lparr>vector = v_bounding, distance = d_bounding\<rparr> of
                           Inl e \<Rightarrow> Raised e
                         | Inr arc_b \<Rightarrow>
                             (if theta_bounding \<ge> arc_h + arc_b then Classified OUTSIDE
                              else if side_has_root v d v0 v1 then Classified PARTIAL
                              else if side_has_root v d v1 v2 then Classified PARTIAL
                              else if side_has_root v d v2 v0 then Classified PARTIAL
                              else if np_dot (np_cross v0 v1) v < - EPSILON
                              then Classified OUTSIDE
                              else if np_dot (np_cross v1 v2) v < - EPSILON
                              then Classified OUTSIDE
                              else if np_dot (np_cross v2 v0) v < - EPSILON
                              then Classified OUTSIDE
                              else Classified PARTIAL)))))"

text \<open>
  The procedure in the words of the specification: the test of a side asks for a real
  root \<open>s\<close> in \<open>[0, 1]\<close> of the quadratic.
\<close>

definition spec_side_crossed :: "coordinates_type \<Rightarrow> real \<Rightarrow> coordinates_type \<Rightarrow> coordinates_type \<Rightarrow> bool" where
  "spec_side_crossed v d v_i v_j =
     (\<exists>s::real. 0 \<le> s \<and> s \<le> 1
        \<and> - ((tan (angle_between_np_vectors v_i v_j / 2))\<^sup>2) * (np_dot v v_i + d) * s\<^sup>2
          + (np_dot v v_i * ((tan (angle_between_np_vectors v_i v_j / 2))\<^sup>2 - 1)
             + np_dot v v_j * ((tan (angle_between_np_vectors v_i v_j / 2))\<^sup>2 + 1)) * s
          + (np_dot v v_i - d) = 0)"

definition spec_classification :: "Trixel \<Rightarrow> Halfspace \<Rightarrow> HalfspaceIntersection" where
  "spec_classification t h =
     (case vertices t of
        (v0, v1, v2) \<Rightarrow>
          (let v = vector h;
               d = distance h;
               n = spec_normalize (np_cross (np_sub v1 v0) (np_sub v2 v1))
           in if np_dot v v0 > d \<and> np_dot v v1 > d \<and> np_dot v v2 > d then FULL
              else if np_dot v v0 > d \<or> np_dot v v1 > d \<or> np_dot v v2 > d then PARTIAL
              else if angle_between_np_vectors v n \<ge> arccos d + arccos (np_dot v0 n)
              then OUTSIDE
              else if spec_side_crossed v d v0 v1 \<or> spec_side_crossed v d v1 v2
                      \<or> spec_side_crossed v d v2 v0
              then PARTIAL
              else if np_dot (np_cross v0 v1) v < - EPSILON \<or> np_dot (np_cross v1 v2) v < - EPSILON
                      \<or> np_dot (np_cross v2 v0) v < - EPSILON
              then OUTSIDE
              else PARTIAL))"

subsection \<open>Cap enumeration\<close>

text \<open>
  The enumeration takes the classifier as the argument \<open>cls\<close>; it answers with a
  classification or raises. What is proved about the enumeration holds for every
  classifier, the one of the source in floating point among them.
\<close>

type_synonym classifier = "Trixel \<Rightarrow> Halfspace \<Rightarrow> py_error + HalfspaceIntersection"

text \<open>One pass over a list of trixels: FULL ones are appended to \<^verbatim>\<open>selected\<close>, PARTIAL
  ones to the list of candidates, the others are dropped; an exception of the classifier
  ends the pass.\<close>

fun classify ::
  "classifier \<Rightarrow> Halfspace \<Rightarrow> Trixel list \<Rightarrow> Trixel list \<times> Trixel list \<Rightarrow>
     py_error + (Trixel list \<times> Trixel list)"
where
  "classify cls h [] (selected, candidates) = Inr (selected, candidates)"
| "classify cls h (t # ts) (selected, candidates) =
     (case cls t h of
        Inl e \<Rightarrow> Inl e
      | Inr FULL \<Rightarrow> classify cls h ts (selected @ [t], candidates)
      | Inr PARTIAL \<Rightarrow> classify cls h ts (selected, candidates @ [t])
      | Inr OUTSIDE \<Rightarrow> classify cls h ts (selected, candidates))"

text \<open>The loop \<^verbatim>\<open>for i in range(depth - 1)\<close>: the children of every candidate, candidate
  by candidate, are classified into \<^verbatim>\<open>selected\<close> and a fresh list of candidates.\<close>

fun refine_rounds ::
  "classifier \<Rightarrow> Halfspace \<Rightarrow> nat \<Rightarrow> Trixel list \<times> Trixel list \<Rightarrow>
     py_error + (Trixel list \<times> Trixel list)"
where
  "refine_rounds cls h 0 (selected, candidates) = Inr (selected, candidates)"
| "refine_rounds cls h (Suc k) (selected, candidates) =
     (case classify cls h (concat (map get_subtrixels candidates)) (selected, []) of
        Inl e \<Rightarrow> Inl e
      | Inr next \<Rightarrow> refine_rounds cls h k next)"

definition get_all_trixels_to_depth ::
  "classifier \<Rightarrow> Halfspace \<Rightarrow> int \<Rightarrow> py_error + Trixel list" where
  "get_all_trixels_to_depth cls h d =
     (if d < 1 then Inl ValueError
      else (case classify cls h (map snd octahedron) ([], []) of
              Inl e \<Rightarrow> Inl e
            | Inr roots \<Rightarrow>
                (case refine_rounds cls h (nat (d - 1)) roots of
                   Inl e \<Rightarrow> Inl e
                 | Inr (selected, candidates) \<Rightarrow> Inr (selected @ candidates))))"

text \<open>The loop of \<^verbatim>\<open>get_all_expanded_trixels_to_depth\<close>; an exception of
  \<^verbatim>\<open>get_subtrixels_at_depth\<close> ends it.\<close>

fun expand_all :: "int \<Rightarrow> Trixel list \<Rightarrow> Trixel list \<Rightarrow> py_error + Trixel list" where
  "expand_all d [] expanded_trixels = Inr expanded_trixels"
| "expand_all d (t # ts) expanded_trixels =
     (if depth t = d then expand_all d ts (expanded_trixels @ [t])
      else (case get_subtrixels_at_depth t d of
              Inl e \<Rightarrow> Inl e
            | Inr subtrixels \<Rightarrow> expand_all d ts (expanded_trixels @ subtrixels)))"

definition get_all_expanded_trixels_to_depth ::
  "classifier \<Rightarrow> Halfspace \<Rightarrow> int \<Rightarrow> py_error + Trixel list" where
  "get_all_expanded_trixels_to_depth cls h d =
     (case get_all_trixels_to_depth cls h d of
        Inl e \<Rightarrow> Inl e
      | Inr trixels \<Rightarrow> expand_all d trixels [])"

text \<open>The descendants of a trixel \<open>k\<close> levels below it, in the words of the specification:
  the trixel itself for \<open>k = 0\<close>, otherwise the descendants of its four children, child
  by child.\<close>

fun descendants_at :: "nat \<Rightarrow> Trixel \<Rightarrow> Trixel list" where
  "descendants_at 0 t = [t]"
| "descendants_at (Suc k) t = concat (map (descendants_at k) (get_subtrixels t))"

section \<open>The query handlers (app.py)\<close>

definition EARTH_RADIUS :: real where
  "EARTH_RADIUS = 6371000"

definition MAX_RADIUS :: real where
  "MAX_RADIUS = 1000"

definition DETAILED_DEPTH :: int where
  "DETAILED_DEPTH = 20"

definition sphere_surface_radius_to_angle :: "real \<Rightarrow> real" where
  "sphere_surface_radius_to_angle r = r / EARTH_RADIUS"

definition angle_to_halfspace_distance :: "real \<Rightarrow> real" where
  "angle_to_halfspace_distance angle = cos angle"

definition sphere_surface_radius_to_halfspace_distance :: "real \<Rightarrow> real" where
  "sphere_surface_radius_to_halfspace_distance r =
     angle_to_halfspace_distance (sphere_surface_radius_to_angle r)"

subsection \<open>trixels-in-radius\<close>

text \<open>
  What \<^verbatim>\<open>float(s)\<close> can return: a finite number, an infinity or a NaN. The comparisons
  are Python's: every comparison with a NaN is false.
\<close>

datatype pyfloat = Finite real | PosInf | NegInf | NaN

fun float_le :: "pyfloat \<Rightarrow> pyfloat \<Rightarrow> bool" where
  "float_le NaN b = False"
| "float_le a NaN = False"
| "float_le NegInf b = True"
| "float_le a PosInf = True"
| "float_le (Finite a) (Finite b) = (a \<le> b)"
| "float_le a b = False"

fun float_lt :: "pyfloat \<Rightarrow> pyfloat \<Rightarrow> bool" where
  "float_lt NaN b = False"
| "float_lt a NaN = False"
| "float_lt PosInf b = False"
| "float_lt a NegInf = False"
| "float_lt (Finite a) (Finite b) = (a < b)"
| "float_lt a b = True"

text \<open>The range checks of the handler, in the order of the source; the result is the
  message of the 400 response, or \<open>None\<close> when the request passes.\<close>

definition check_ranges :: "pyfloat \<Rightarrow> pyfloat \<Rightarrow> pyfloat \<Rightarrow> string option" where
  "check_ranges lat lon radius =
     (if \<not> (float_le (Finite (- 90)) lat \<and> float_le lat (Finite 90))
         \<or> \<not> (float_le (Finite (- 180)) lon \<and> float_le lon (Finite 180))
      then Some ''Latitude must be between -90 and 90. Longitude must be between -180 and 180.''
      else if float_lt radius (Finite 0)
      then Some ''Radius must be greater than or equal to 0.''
      else if float_lt (Finite MAX_RADIUS) radius
      then Some ''Radius must be less than or equal to 1000.0.''
      else None)"

text \<open>
  The response of the handler: a 400 with its message, the trixels of the enumeration
  (from which the JSON list of names and latitude/longitude vertices is rendered), an
  exception that the handler does not catch, or the enumeration started on arguments that
  are not all finite, which the real-number model of the geometry does not follow.
\<close>

datatype response =
    Bad_Request string
  | Trixels_Response "Trixel list"
  | Unhandled py_error
  | Enumeration_On_Non_Finite pyfloat pyfloat pyfloat

text \<open>The handler \<^verbatim>\<open>trixels_in_halfspace\<close>. The three query parameters are absent
  (\<open>None\<close>) or strings; \<open>py_float\<close> is Python's \<^verbatim>\<open>float\<close>, \<open>None\<close> for ValueError.\<close>

definition trixels_in_halfspace ::
  "(string \<Rightarrow> pyfloat option) \<Rightarrow> classifier \<Rightarrow>
     string option \<Rightarrow> string option \<Rightarrow> string option \<Rightarrow> response" where
  "trixels_in_halfspace py_float cls lat lon radius =
     (case (lat, lon, radius) of
        (Some lat_s, Some lon_s, Some radius_s) \<Rightarrow>
          (if lat_s = [] \<or> lon_s = [] \<or> radius_s = []
           then Bad_Request ''Latitude, longitude and radius parameters are required.''
           else
             (case (py_float lat_s, py_float lon_s, py_float radius_s) of
                (Some lat_f, Some lon_f, Some radius_f) \<Rightarrow>
                  (case check_ranges lat_f lon_f radius_f of
                     Some msg \<Rightarrow> Bad_Request msg
                   | None \<Rightarrow>
                       (case (lat_f, lon_f, radius_f) of
                          (Finite la, Finite lo, Finite r) \<Rightarrow>
                            (case get_all_expanded_trixels_to_depth cls
                                    \<lparr>vector = lat_lon_to_xyz la lo,
                                     distance = sphere_surface_radius_to_halfspace_distance r\<rparr>
                                    DETAILED_DEPTH of
                               Inl e \<Rightarrow> Unhandled e
                             | Inr trixels \<Rightarrow> Trixels_Response trixels)
                        | _ \<Rightarrow> Enumeration_On_Non_Finite lat_f lon_f radius_f))
              | _ \<Rightarrow> Bad_Request ''Invalid latitude, longitude or radius values.''))
      | _ \<Rightarrow> Bad_Request ''Latitude, longitude and radius parameters are required.'')"

subsection \<open>detailed-by-trixel-names\<close>

text \<open>
  The file system: a map from absolute paths, as lists of components, to directories and
  files of rows. There are no symbolic links. A path is looked up component by component
  from the root: an empty component and \<^verbatim>\<open>.\<close> stay, \<^verbatim>\<open>..\<close> goes to the parent, and
  only a directory can be passed through.
\<close>

datatype fs_node = Directory | File "real list list"

type_synonym filesystem = "string list \<rightharpoonup> fs_node"

fun walk :: "filesystem \<Rightarrow> string list \<Rightarrow> string list \<Rightarrow> string list option" where
  "walk fs cur [] = Some cur"
| "walk fs cur (c # cs) =
     (if c = [] \<or> c = ''.'' then walk fs cur cs
      else if fs cur \<noteq> Some Directory then None
      else if c = ''..'' then walk fs (butlast cur) cs
      else walk fs (cur @ [c]) cs)"

definition resolve :: "filesystem \<Rightarrow> string \<Rightarrow> string list option" where
  "resolve fs path = walk fs [] (split_sep CHR ''/'' path)"

definition path_exists :: "filesystem \<Rightarrow> string \<Rightarrow> bool" where
  "path_exists fs path =
     (case resolve fs path of None \<Rightarrow> False | Some q \<Rightarrow> fs q \<noteq> None)"

definition np_load :: "filesystem \<Rightarrow> string \<Rightarrow> py_error + real list list" where
  "np_load fs path =
     (case resolve fs path of
        None \<Rightarrow> Inl FileNotFoundError
      | Some q \<Rightarrow>
          (case fs q of
             Some (File rows) \<Rightarrow> Inr rows
           | _ \<Rightarrow> Inl FileNotFoundError))"

text \<open>An example of a file system: the server directory \<^verbatim>\<open>/srv\<close> with the processed
  datasets \<^verbatim>\<open>a\<close>, which is empty, and \<^verbatim>\<open>otherdataset\<close>, which holds the blob of the
  trixel \<^verbatim>\<open>N0\<close>.\<close>

definition example_fs :: filesystem where
  "example_fs =
     [[] \<mapsto> Directory,
      [''srv''] \<mapsto> Directory,
      [''srv'', ''data''] \<mapsto> Directory,
      [''srv'', ''data'', ''processed''] \<mapsto> Directory,
      [''srv'', ''data'', ''processed'', ''a''] \<mapsto> Directory,
      [''srv'', ''data'', ''processed'', ''otherdataset''] \<mapsto> Directory,
      [''srv'', ''data'', ''processed'', ''otherdataset'', ''N0''] \<mapsto> Directory,
      [''srv'', ''data'', ''processed'', ''otherdataset'', ''N0'', ''data.npy'']
         \<mapsto> File [[1, 2, 3, 4, 5, 6]]]"

text \<open>\<^verbatim>\<open>os.path.join\<close> (posixpath): a component that starts with the separator replaces
  what was joined so far.\<close>

definition path_join2 :: "string \<Rightarrow> string \<Rightarrow> string" where
  "path_join2 path b =
     (if b \<noteq> [] \<and> hd b = CHR ''/'' then b
      else if path = [] \<or> last path = CHR ''/'' then path @ b
      else path @ ''/'' @ b)"

definition path_join :: "string \<Rightarrow> string list \<Rightarrow> string" where
  "path_join a ps = foldl path_join2 a ps"

text \<open>The loop of \<^verbatim>\<open>detailed_by_trixel_names\<close> that fills the dictionary \<^verbatim>\<open>data\<close>.\<close>

fun collect_trixel_data ::
  "filesystem \<Rightarrow> string \<Rightarrow> string list \<Rightarrow> (string \<rightharpoonup> real list list) \<Rightarrow>
     py_error + (string \<rightharpoonup> real list list)" where
  "collect_trixel_data fs dataset_dir [] data = Inr data"
| "collect_trixel_data fs dataset_dir (trixel_name # rest) data =
     (if \<not> path_exists fs (path_join dataset_dir [replace_dash trixel_name, ''data.npy''])
      then collect_trixel_data fs dataset_dir rest (data(trixel_name \<mapsto> []))
      else
        (case np_load fs (path_join dataset_dir [replace_dash trixel_name, ''data.npy'']) of
           Inl e \<Rightarrow> Inl e
         | Inr trixel_data \<Rightarrow>
             collect_trixel_data fs dataset_dir rest (data(trixel_name \<mapsto> trixel_data))))"

text \<open>A Python call of a function with one required positional parameter: any other
  number of arguments raises TypeError.\<close>

definition py_call1 :: "('a \<Rightarrow> 'b) \<Rightarrow> 'a list \<Rightarrow> py_error + 'b" where
  "py_call1 f args = (case args of [a] \<Rightarrow> Inr (f a) | _ \<Rightarrow> Inl TypeError)"

datatype detailed_response =
    Detailed_Bad_Request string
  | Detailed_Data "string \<rightharpoonup> real list list"
  | Detailed_Unhandled py_error

text \<open>
  The handler \<^verbatim>\<open>detailed_by_trixel_names\<close>. The JSON body is absent or empty (\<open>None\<close>)
  or gives \<^verbatim>\<open>trixels\<close> (\<open>None\<close> when missing or not a list) and \<^verbatim>\<open>dataset\<close>.
  \<open>get_dataset_names\<close> is the function of logic/datasets.py, which lists the directories
  of its argument \<^verbatim>\<open>datasets_dir\<close>; the handler calls it with no argument.
\<close>

definition detailed_by_trixel_names ::
  "(string \<Rightarrow> string list) \<Rightarrow> filesystem \<Rightarrow> string \<Rightarrow>
     (string list option \<times> string option) option \<Rightarrow> detailed_response" where
  "detailed_by_trixel_names get_dataset_names fs server_dir json_body =
     (case json_body of
        None \<Rightarrow> Detailed_Bad_Request ''JSON body is required.''
      | Some (trixels, dataset_field) \<Rightarrow>
          (case trixels of
             None \<Rightarrow> Detailed_Bad_Request ''Trixels parameter is required and must be a list.''
           | Some [] \<Rightarrow>
               Detailed_Bad_Request ''Trixels parameter is required and must be a list.''
           | Some trixel_names \<Rightarrow>
               (case dataset_field of
                  None \<Rightarrow> Detailed_Bad_Request ''Dataset parameter is required.''
                | Some [] \<Rightarrow> Detailed_Bad_Request ''Dataset parameter is required.''
                | Some dataset \<Rightarrow>
                    (case py_call1 get_dataset_names [] of
                       Inl e \<Rightarrow> Detailed_Unhandled e
                     | Inr names \<Rightarrow>
                         (if dataset \<notin> set names
                          then Detailed_Bad_Request ''Dataset does not exist.''
                          else
                            (case collect_trixel_data fs
                                    (path_join server_dir [''data'', ''processed'', dataset])
                                    trixel_names Map.empty of
                               Inl e \<Rightarrow> Detailed_Unhandled e
                             | Inr data \<Rightarrow> Detailed_Data data))))))"

section \<open>Ingestion (logic/ingest.py)\<close>

definition INGEST_MIN_DEPTH :: int where
  "INGEST_MIN_DEPTH = 10"

definition INGEST_MAX_DEPTH :: int where
  "INGEST_MAX_DEPTH = 20"

subsection \<open>The UTM to trixel mapping\<close>

text \<open>Python's \<^verbatim>\<open>xs[i]\<close>: a negative index counts from the end, and an index out of
  range raises IndexError.\<close>

definition py_index :: "'a list \<Rightarrow> int \<Rightarrow> py_error + 'a" where
  "py_index xs i =
     (if 0 \<le> i \<and> i < int (length xs) then Inr (xs ! nat i)
      else if i < 0 \<and> - int (length xs) \<le> i then Inr (xs ! nat (int (length xs) + i))
      else Inl IndexError)"

record Mapping =
  min_x :: int
  min_y :: int
  max_x :: int
  max_y :: int
  mapping :: "string list list"

definition get_trixel_name :: "Mapping \<Rightarrow> int \<Rightarrow> int \<Rightarrow> py_error + string" where
  "get_trixel_name m x y =
     (case py_index (mapping m) (y - min_y m) of
        Inl e \<Rightarrow> Inl e
      | Inr row \<Rightarrow> py_index row (x - min_x m))"

text \<open>A mapping as \<^verbatim>\<open>build_utm_to_htm_mapping\<close> builds it: one row for every y of
  \<open>min_y..max_y\<close>, one name in every row for every x of \<open>min_x..max_x\<close>.\<close>

definition built_mapping :: "Mapping \<Rightarrow> bool" where
  "built_mapping m =
     (min_x m \<le> max_x m \<and> min_y m \<le> max_y m
      \<and> int (length (mapping m)) = max_y m - min_y m + 1
      \<and> list_all (\<lambda>row. int (length row) = max_x m - min_x m + 1) (mapping m))"

text \<open>The name stored for the cell \<open>(x, y)\<close> of the rectangle.\<close>

definition cell :: "Mapping \<Rightarrow> int \<Rightarrow> int \<Rightarrow> string" where
  "cell m x y = mapping m ! nat (y - min_y m) ! nat (x - min_x m)"

subsection \<open>Backfill\<close>

text \<open>
  The blob store: the files \<^verbatim>\<open>data.npy\<close> by their path, each a list of rows;
  \<^verbatim>\<open>np.concatenate\<close> appends the rows. A trixel's blob is the file at
  \<^verbatim>\<open>os.path.join(processed_path, name.replace("-", "/"), "data.npy")\<close>.
\<close>

type_synonym blob_store = "string \<rightharpoonup> real list list"

definition trixel_file :: "string \<Rightarrow> string \<Rightarrow> string" where
  "trixel_file processed_path trixel_name =
     path_join processed_path [replace_dash trixel_name, ''data.npy'']"

definition parent_trixel_name :: "string \<Rightarrow> string" where
  "parent_trixel_name trixel_name = join_sep ''-'' (butlast (split_sep CHR ''-'' trixel_name))"

text \<open>The inner loop over \<^verbatim>\<open>prev_trixels_list\<close>: every blob is loaded and written to,
  or appended to, the blob of its parent.\<close>

fun backfill_level :: "string \<Rightarrow> string list \<Rightarrow> blob_store \<Rightarrow> py_error + blob_store" where
  "backfill_level processed_path [] store = Inr store"
| "backfill_level processed_path (trixel_name # rest) store =
     (case store (trixel_file processed_path trixel_name) of
        None \<Rightarrow> Inl FileNotFoundError
      | Some trixel_data \<Rightarrow>
          backfill_level processed_path rest
            (store(trixel_file processed_path (parent_trixel_name trixel_name) \<mapsto>
               (case store (trixel_file processed_path (parent_trixel_name trixel_name)) of
                  Some parent_trixel_data \<Rightarrow> parent_trixel_data @ trixel_data
                | None \<Rightarrow> trixel_data))))"

text \<open>
  The outer loop over the depths. \<open>to_list\<close> is \<^verbatim>\<open>list(next_trixels)\<close>: it turns the
  set of the parents, given in the order of their insertion, into a list in the order of
  Python's set, which the source does not fix.
\<close>

fun backfill_depths ::
  "(string list \<Rightarrow> string list) \<Rightarrow> string \<Rightarrow> int list \<Rightarrow> string list \<Rightarrow> blob_store \<Rightarrow>
     (int \<rightharpoonup> string list) \<Rightarrow> py_error + (blob_store \<times> (int \<rightharpoonup> string list))" where
  "backfill_depths to_list processed_path [] prev_trixels_list store trixels_by_depth =
     Inr (store, trixels_by_depth)"
| "backfill_depths to_list processed_path (d # ds) prev_trixels_list store trixels_by_depth =
     (case backfill_level processed_path prev_trixels_list store of
        Inl e \<Rightarrow> Inl e
      | Inr store' \<Rightarrow>
          backfill_depths to_list processed_path ds
            (to_list (map parent_trixel_name prev_trixels_list)) store'
            (trixels_by_depth(d \<mapsto> to_list (map parent_trixel_name prev_trixels_list))))"

text \<open>\<^verbatim>\<open>range(a, b, -1)\<close>: from \<open>a\<close> down to \<open>b + 1\<close>.\<close>

definition range_down :: "int \<Rightarrow> int \<Rightarrow> int list" where
  "range_down a b = rev [b + 1..a]"

text \<open>\<^verbatim>\<open>backfill_trixels\<close>, on the list \<^verbatim>\<open>list(saved_trixels)\<close>; it returns the store it
  leaves and \<^verbatim>\<open>trixels_by_depth\<close>.\<close>

definition backfill_trixels ::
  "(string list \<Rightarrow> string list) \<Rightarrow> string \<Rightarrow> string list \<Rightarrow> blob_store \<Rightarrow>
     py_error + (blob_store \<times> (int \<rightharpoonup> string list))" where
  "backfill_trixels to_list processed_path saved_trixels_list store =
     (case saved_trixels_list of
        [] \<Rightarrow> Inl IndexError
      | first # others \<Rightarrow>
          (let saved_depth = int (count_dash first) + 1 in
             if \<not> list_all (\<lambda>trixel. int (count_dash trixel) + 1 = saved_depth)
                     saved_trixels_list
             then Inl AssertionError
             else backfill_depths to_list processed_path
                    (range_down (saved_depth - 1) (INGEST_MIN_DEPTH - 1))
                    saved_trixels_list store
                    [saved_depth \<mapsto> saved_trixels_list]))"

text \<open>The trixel names of the grammar \<^verbatim>\<open>(N0|N1|N2|N3|S0|S1|S2|S3)(-[0-3])*\<close>, the depth
  of a name, and the names below a name in the hierarchy.\<close>

definition trixel_name_ok :: "string \<Rightarrow> bool" where
  "trixel_name_ok n =
     (case split_sep CHR ''-'' n of
        [] \<Rightarrow> False
      | r # ds \<Rightarrow> r \<in> set (map fst octahedron)
                 \<and> list_all (\<lambda>d. d \<in> {''0'', ''1'', ''2'', ''3''}) ds)"

definition name_depth :: "string \<Rightarrow> int" where
  "name_depth n = int (length (split_sep CHR ''-'' n))"

definition descends_from :: "string \<Rightarrow> string \<Rightarrow> bool" where
  "descends_from leaf n = prefix (split_sep CHR ''-'' n) (split_sep CHR ''-'' leaf)"

text \<open>The rows of a blob, none for a blob that does not exist, and the rows of the blobs
  of the saved leaves below a name, leaf by leaf.\<close>

definition rows_at :: "blob_store \<Rightarrow> string \<Rightarrow> real list list" where
  "rows_at store path = (case store path of None \<Rightarrow> [] | Some rows \<Rightarrow> rows)"

definition leaf_rows :: "string \<Rightarrow> blob_store \<Rightarrow> string list \<Rightarrow> string \<Rightarrow> real list list" where
  "leaf_rows processed_path store saved n =
     concat (map (\<lambda>leaf. rows_at store (trixel_file processed_path leaf))
                 (filter (\<lambda>leaf. descends_from leaf n) saved))"

text \<open>
  The invariant of the outer loop of the backfill when the names of depth \<open>k\<close> are in
  \<open>prev\<close>: they are distinct names of depth \<open>k\<close>, every saved leaf is below one of
  them, the blob of each holds the rows of the saved leaves below it, no name above
  depth \<open>k\<close> has a blob, and each of them has a saved leaf below it. \<open>store0\<close> is the
  store before the backfill.
\<close>

definition level_ok ::
  "string \<Rightarrow> blob_store \<Rightarrow> string list \<Rightarrow> int \<Rightarrow> string list \<Rightarrow> blob_store \<Rightarrow> bool" where
  "level_ok processed_path store0 saved k prev store =
     (distinct prev
      \<and> (\<forall>n \<in> set prev. trixel_name_ok n \<and> name_depth n = k)
      \<and> (\<forall>s \<in> set saved. \<exists>n \<in> set prev. descends_from s n)
      \<and> (\<forall>n \<in> set prev. \<exists>rows. store (trixel_file processed_path n) = Some rows
             \<and> mset rows = mset (leaf_rows processed_path store0 saved n))
      \<and> (\<forall>m. trixel_name_ok m \<and> name_depth m < k \<longrightarrow>
             store (trixel_file processed_path m) = None)
      \<and> (\<forall>n \<in> set prev. \<exists>s \<in> set saved. descends_from s n))"

section \<open>The ingest command (ingest_data.py)\<close>

text \<open>
  \<^verbatim>\<open>process_data\<close>. \<open>abspath\<close> and \<open>exists\<close> are \<^verbatim>\<open>os.path.abspath\<close> and
  \<^verbatim>\<open>os.path.exists\<close>; \<open>ingest_all\<close> is the rest of the function after the check of the
  input directory (creating the output directory, finding and ingesting the datasets),
  which returns or raises. The result is what was printed, and the exception if one
  was raised.
\<close>

definition process_data ::
  "(string \<Rightarrow> string) \<Rightarrow> (string \<Rightarrow> bool) \<Rightarrow> (string \<Rightarrow> string \<Rightarrow> string list \<times> (py_error + unit)) \<Rightarrow>
     string \<Rightarrow> string \<Rightarrow> string list \<times> (py_error + unit)" where
  "process_data abspath exists ingest_all input_dir output_dir =
     (if \<not> exists (abspath input_dir)
      then ([''Unprocessed directory '' @ abspath input_dir @ '' does not exist''], Inr ())
      else ingest_all (abspath input_dir) (abspath output_dir))"

text \<open>
  The script run as a program with the argument vector \<^verbatim>\<open>sys.argv\<close>: what it prints and
  the exit status of the process. \<^verbatim>\<open>sys.exit(1)\<close> and an exception that nothing catches
  end the process with status 1; a script that runs to its end exits with status 0.
\<close>

definition ingest_main ::
  "(string \<Rightarrow> string) \<Rightarrow> (string \<Rightarrow> bool) \<Rightarrow> (string \<Rightarrow> string \<Rightarrow> string list \<times> (py_error + unit)) \<Rightarrow>
     string list \<Rightarrow> string list \<times> int" where
  "ingest_main abspath exists ingest_all argv =
     (if length argv \<noteq> 3
      then ([''Usage: python -m server.scripts.ingest_data [input_dir] [output_dir]''], 1)
      else
        (case process_data abspath exists ingest_all (argv ! 1) (argv ! 2) of
           (printed, Inr u) \<Rightarrow> (printed, 0)
         | (printed, Inl e) \<Rightarrow> (printed, 1)))"

section \<open>Splitting and joining names\<close>

lemma split_sep_nonempty: "split_sep c s \<noteq> []"
  by (induction s) (auto split: list.splits)

lemma split_sep_append_sep:
  "split_sep c (xs @ c # ys) = split_sep c xs @ split_sep c ys"
  by (induction xs) (auto split: list.splits simp: split_sep_nonempty)

lemma split_sep_no_sep: "c \<notin> set s \<Longrightarrow> split_sep c s = [s]"
  by (induction s) (auto split: list.splits)

lemma join_sep_Cons: "ws \<noteq> [] \<Longrightarrow> join_sep s (w # ws) = w @ s @ join_sep s ws"
  by (cases ws) simp_all

lemma join_split: "join_sep [c] (split_sep c s) = s"
proof (induction s)
  case Nil
  show ?case by simp
next
  case (Cons x xs)
  obtain w ws where sp: "split_sep c xs = w # ws"
    using split_sep_nonempty by (cases "split_sep c xs") auto
  show ?case
  proof (cases "x = c")
    case True
    then show ?thesis using Cons.IH by (simp add: sp)
  next
    case False
    then show ?thesis using Cons.IH by (cases ws) (simp_all add: sp)
  qed
qed

lemma split_join:
  "segs \<noteq> [] \<Longrightarrow> \<forall>w \<in> set segs. c \<notin> set w \<Longrightarrow> split_sep c (join_sep [c] segs) = segs"
proof (induction segs)
  case Nil
  then show ?case by simp
next
  case (Cons w ws)
  show ?case
  proof (cases "ws = []")
    case True
    then show ?thesis using Cons.prems by (simp add: split_sep_no_sep)
  next
    case False
    then show ?thesis
      using Cons by (simp add: join_sep_Cons split_sep_append_sep split_sep_no_sep)
  qed
qed

lemma split_pieces_no_sep: "w \<in> set (split_sep c s) \<Longrightarrow> c \<notin> set w"
proof (induction s arbitrary: w)
  case Nil
  then show ?case by simp
next
  case (Cons x xs)
  obtain v vs where sp: "split_sep c xs = v # vs"
    using split_sep_nonempty by (cases "split_sep c xs") auto
  show ?case
  proof (cases "x = c")
    case True
    then show ?thesis using Cons by (auto simp: sp)
  next
    case False
    then show ?thesis using Cons.prems Cons.IH[of v] Cons.IH[of w] by (auto simp: sp)
  qed
qed

lemma length_split_sep: "length (split_sep c s) = Suc (length (filter (\<lambda>x. x = c) s))"
proof (induction s)
  case Nil
  show ?case by simp
next
  case (Cons x xs)
  obtain v vs where sp: "split_sep c xs = v # vs"
    using split_sep_nonempty by (cases "split_sep c xs") auto
  show ?case using Cons.IH by (simp add: sp)
qed

lemma count_dash_depth: "int (count_dash n) + 1 = name_depth n"
  by (simp add: count_dash_def name_depth_def length_split_sep)

lemma replace_dash_append: "replace_dash (xs @ ys) = replace_dash xs @ replace_dash ys"
  by (simp add: replace_dash_def)

lemma replace_dash_id: "CHR ''-'' \<notin> set w \<Longrightarrow> replace_dash w = w"
  by (induction w) (auto simp: replace_dash_def)

lemma replace_dash_join:
  "\<forall>w \<in> set segs. CHR ''-'' \<notin> set w \<Longrightarrow>
     replace_dash (join_sep ''-'' segs) = join_sep ''/'' segs"
proof (induction segs)
  case Nil
  show ?case by (simp add: replace_dash_def)
next
  case (Cons w ws)
  show ?case
  proof (cases "ws = []")
    case True
    then show ?thesis using Cons.prems by (simp add: replace_dash_id)
  next
    case False
    have "\<And>xs. replace_dash (CHR ''-'' # xs) = CHR ''/'' # replace_dash xs"
      by (simp add: replace_dash_def)
    then show ?thesis
      using False Cons by (simp add: join_sep_Cons replace_dash_append replace_dash_id)
  qed
qed

lemma replace_dash_name: "replace_dash n = join_sep ''/'' (split_sep CHR ''-'' n)"
  using replace_dash_join[of "split_sep CHR ''-'' n"] split_pieces_no_sep[of _ "CHR ''-''" n]
  by (simp add: join_split)

lemma join_sep_nonempty: "segs \<noteq> [] \<Longrightarrow> hd segs \<noteq> [] \<Longrightarrow> join_sep s segs \<noteq> []"
  by (cases segs; cases "tl segs") auto

lemma hd_join_sep: "segs \<noteq> [] \<Longrightarrow> hd segs \<noteq> [] \<Longrightarrow> hd (join_sep s segs) = hd (hd segs)"
  by (cases segs; cases "tl segs") auto

lemma last_join_sep:
  "segs \<noteq> [] \<Longrightarrow> \<forall>w \<in> set segs. w \<noteq> [] \<Longrightarrow> last (join_sep s segs) = last (last segs)"
proof (induction segs)
  case Nil
  then show ?case by simp
next
  case (Cons w ws)
  show ?case
  proof (cases "ws = []")
    case True
    then show ?thesis by simp
  next
    case False
    then have "hd ws \<noteq> []" using Cons.prems by (cases ws) auto
    then have "join_sep s ws \<noteq> []" using False by (rule join_sep_nonempty[rotated])
    with False Cons show ?thesis by (simp add: join_sep_Cons)
  qed
qed

section \<open>Subdivision\<close>

lemma midpoint_xyz_spec: "midpoint_xyz a b = spec_midpoint a b"
  by (cases a, cases b)
     (simp add: spec_midpoint_def spec_normalize_def power2_eq_square divide_inverse mult.commute)

text \<open>
  Claim C4. For every trixel with vertices (v0, v1, v2) and name P, get_subtrixels yields
  exactly four children, in this order: P-0 with vertices (v0, w2, w1), P-1 with
  (v1, w0, w2), P-2 with (v2, w1, w0) and P-3 with (w0, w1, w2), where w0 is the midpoint
  of v1 and v2, w1 of v2 and v0, w2 of v0 and v1, and the midpoint of a and b is the
  normalised sum a + b.
\<close>

theorem get_subtrixels_table:
  "get_subtrixels \<lparr>name = P, vertices = (v0, v1, v2)\<rparr> =
     [\<lparr>name = P @ ''-0'', vertices = (v0, spec_midpoint v0 v1, spec_midpoint v2 v0)\<rparr>,
      \<lparr>name = P @ ''-1'', vertices = (v1, spec_midpoint v1 v2, spec_midpoint v0 v1)\<rparr>,
      \<lparr>name = P @ ''-2'', vertices = (v2, spec_midpoint v2 v0, spec_midpoint v1 v2)\<rparr>,
      \<lparr>name = P @ ''-3'',
         vertices = (spec_midpoint v1 v2, spec_midpoint v2 v0, spec_midpoint v0 v1)\<rparr>]"
  unfolding get_subtrixels_def Let_def by (simp add: midpoint_xyz_spec del: midpoint_xyz.simps)

lemma get_subtrixels_four:
  "\<exists>t0 t1 t2 t3. get_subtrixels t = [t0, t1, t2, t3] \<and> name t0 = name t @ ''-0''
     \<and> name t1 = name t @ ''-1'' \<and> name t2 = name t @ ''-2'' \<and> name t3 = name t @ ''-3''"
  by (cases "vertices t") (simp add: get_subtrixels_def Let_def del: midpoint_xyz.simps)

lemma depth_child:
  assumes "t \<in> set (get_subtrixels p)"
  shows "depth t = depth p + 1"
proof -
  obtain t0 t1 t2 t3 where g: "get_subtrixels p = [t0, t1, t2, t3]"
    and n: "name t0 = name p @ ''-0''" "name t1 = name p @ ''-1''"
           "name t2 = name p @ ''-2''" "name t3 = name p @ ''-3''"
    using get_subtrixels_four by blast
  from assms g consider "t = t0" | "t = t1" | "t = t2" | "t = t3" by auto
  then show ?thesis
    by cases (simp_all add: depth_def n split_sep_append_sep)
qed

lemma depth_root: "t \<in> set (map snd octahedron) \<Longrightarrow> depth t = 1"
  unfolding octahedron_def
  by (auto simp: depth_def octahedron_N0_def octahedron_N1_def
      octahedron_N2_def octahedron_N3_def octahedron_S0_def octahedron_S1_def octahedron_S2_def
      octahedron_S3_def)

lemma depth_positive: "1 \<le> depth t"
  using split_sep_nonempty[of "CHR ''-''" "name t"]
  by (cases "split_sep CHR ''-'' (name t)") (simp_all add: depth_def)

section \<open>Name resolution\<close>

lemma descend_name_append:
  "descend_name t (ps @ qs) =
     (case descend_name t ps of Inl e \<Rightarrow> Inl e | Inr t' \<Rightarrow> descend_name t' qs)"
proof (induction ps arbitrary: t)
  case Nil
  show ?case by simp
next
  case (Cons p ps)
  obtain t0 t1 t2 t3 where g: "get_subtrixels t = [t0, t1, t2, t3]"
    using get_subtrixels_four by blast
  show ?case by (simp add: g Cons.IH)
qed

lemma find_trixel_from_name_child:
  assumes "find_trixel_from_name (name p) = Inr p" and "t \<in> set (get_subtrixels p)"
  shows "find_trixel_from_name (name t) = Inr t"
proof -
  obtain t0 t1 t2 t3 where g: "get_subtrixels p = [t0, t1, t2, t3]"
    and n: "name t0 = name p @ ''-0''" "name t1 = name p @ ''-1''"
           "name t2 = name p @ ''-2''" "name t3 = name p @ ''-3''"
    using get_subtrixels_four by blast
  obtain p0 ps where sp: "split_sep CHR ''-'' (name p) = p0 # ps"
    using split_sep_nonempty by (cases "split_sep CHR ''-'' (name p)") auto
  from assms(1) obtain r where r: "map_of octahedron p0 = Some r" "descend_name r ps = Inr p"
    by (auto simp: find_trixel_from_name_def sp split: option.splits)
  have step: "\<And>d u. name u = name p @ CHR ''-'' # d \<Longrightarrow> CHR ''-'' \<notin> set d \<Longrightarrow>
      descend_name p [d] = Inr u \<Longrightarrow> find_trixel_from_name (name u) = Inr u"
    by (simp add: find_trixel_from_name_def split_sep_append_sep sp split_sep_no_sep r
        descend_name_append del: descend_name.simps)
  from assms(2) g consider "t = t0" | "t = t1" | "t = t2" | "t = t3" by auto
  then show ?thesis
  proof cases
    case 1 show ?thesis by (rule step[of _ "''0''"]) (simp_all add: 1 n g)
  next
    case 2 show ?thesis by (rule step[of _ "''1''"]) (simp_all add: 2 n g)
  next
    case 3 show ?thesis by (rule step[of _ "''2''"]) (simp_all add: 3 n g)
  next
    case 4 show ?thesis by (rule step[of _ "''3''"]) (simp_all add: 4 n g)
  qed
qed

lemma find_trixel_from_name_root:
  "t \<in> set (map snd octahedron) \<Longrightarrow> find_trixel_from_name (name t) = Inr t"
  unfolding octahedron_def
  by (auto simp: octahedron_def find_trixel_from_name_def octahedron_N0_def octahedron_N1_def
      octahedron_N2_def octahedron_N3_def octahedron_S0_def octahedron_S1_def octahedron_S2_def
      octahedron_S3_def)

text \<open>
  Claim C7. For every trixel T reachable from an octahedron root by any number of
  subdivisions, find_trixel_from_name(T.name) returns a trixel with the same name and
  identical vertices. The result is the trixel T itself, so name and vertices agree
  exactly, and in particular to within 1e-12.
\<close>

theorem name_roundtrip:
  "reachable t \<Longrightarrow> find_trixel_from_name (name t) = Inr t"
proof (induction rule: reachable.induct)
  case (root t)
  then show ?case by (rule find_trixel_from_name_root)
next
  case (child p t)
  then show ?case by (blast intro: find_trixel_from_name_child)
qed

text \<open>The third child of the root N0 is reachable; its name resolves to it.\<close>

theorem name_roundtrip_witness:
  "reachable (get_subtrixels octahedron_N0 ! 2)
   \<and> name (get_subtrixels octahedron_N0 ! 2) = ''N0-2''
   \<and> find_trixel_from_name ''N0-2'' = Inr (get_subtrixels octahedron_N0 ! 2)"
proof -
  have r0: "reachable octahedron_N0" by (rule reachable.root) (simp add: octahedron_def)
  have m: "get_subtrixels octahedron_N0 ! 2 \<in> set (get_subtrixels octahedron_N0)"
    by (simp add: get_subtrixels_def octahedron_N0_def Let_def del: midpoint_xyz.simps)
  have r: "reachable (get_subtrixels octahedron_N0 ! 2)" by (rule reachable.child[OF r0 m])
  have n: "name (get_subtrixels octahedron_N0 ! 2) = ''N0-2''"
    by (simp add: get_subtrixels_def octahedron_N0_def Let_def del: midpoint_xyz.simps)
  from name_roundtrip[OF r] r n show ?thesis by simp
qed

section \<open>Descent to the point at latitude 0, longitude 0\<close>

text \<open>
  At latitude 0 and longitude 0 the coordinates are exactly \<open>(1, 0, 0)\<close>, in floating
  point as in the reals, and the tests that decide the descent to depth 2 compare
  \<open>- EPSILON\<close> with 0, with a half or with the square root of a half.
\<close>

lemma lat_lon_to_xyz_origin: "lat_lon_to_xyz 0 0 = (1, 0, 0)"
  by (simp add: lat_lon_to_xyz_def radians_def)

lemma EPSILON_bounds: "0 < EPSILON" "EPSILON < 1 / 2"
  by (simp_all add: EPSILON_def)

lemma get_subtrixels_S3:
  "get_subtrixels octahedron_S3 =
     [\<lparr>name = ''S3-0'', vertices = ((0, -1, 0), (0, - (1 / sqrt 2), - (1 / sqrt 2)), (1 / sqrt 2, - (1 / sqrt 2), 0))\<rparr>,
      \<lparr>name = ''S3-1'', vertices = ((0, 0, -1), (1 / sqrt 2, 0, - (1 / sqrt 2)), (0, - (1 / sqrt 2), - (1 / sqrt 2)))\<rparr>,
      \<lparr>name = ''S3-2'', vertices = ((1, 0, 0), (1 / sqrt 2, - (1 / sqrt 2), 0), (1 / sqrt 2, 0, - (1 / sqrt 2)))\<rparr>,
      \<lparr>name = ''S3-3'', vertices = ((1 / sqrt 2, 0, - (1 / sqrt 2)), (1 / sqrt 2, - (1 / sqrt 2), 0), (0, - (1 / sqrt 2), - (1 / sqrt 2)))\<rparr>]"
  by (simp add: get_subtrixels_def octahedron_S3_def Let_def)

lemma not_in_S3_0: "\<not> contains \<lparr>name = ''S3-0'', vertices = ((0, -1, 0), (0, - (1 / sqrt 2), - (1 / sqrt 2)), (1 / sqrt 2, - (1 / sqrt 2), 0))\<rparr> 1 0 0"
  using EPSILON_bounds by (simp add: contains_def)

lemma not_in_S3_1: "\<not> contains \<lparr>name = ''S3-1'', vertices = ((0, 0, -1), (1 / sqrt 2, 0, - (1 / sqrt 2)), (0, - (1 / sqrt 2), - (1 / sqrt 2)))\<rparr> 1 0 0"
  using EPSILON_bounds by (simp add: contains_def)

lemma in_S3_2: "contains \<lparr>name = ''S3-2'', vertices = ((1, 0, 0), (1 / sqrt 2, - (1 / sqrt 2), 0), (1 / sqrt 2, 0, - (1 / sqrt 2)))\<rparr> 1 0 0"
  using EPSILON_bounds by (simp add: contains_def)

lemma find_trixel_from_lat_lon_depth1: "find_trixel_from_lat_lon 0 0 1 = Inr octahedron_S3"
  by (simp add: find_trixel_from_lat_lon_def lat_lon_to_xyz_origin find_trixel_from_xyz_def
      find_octahedron_trixel_from_xyz_def)

lemma find_trixel_from_lat_lon_depth2: "find_trixel_from_lat_lon 0 0 2 = Inr \<lparr>name = ''S3-2'', vertices = ((1, 0, 0), (1 / sqrt 2, - (1 / sqrt 2), 0), (1 / sqrt 2, 0, - (1 / sqrt 2)))\<rparr>"
  by (simp add: find_trixel_from_lat_lon_def lat_lon_to_xyz_origin find_trixel_from_xyz_def
      find_octahedron_trixel_from_xyz_def get_next_def get_subtrixels_S3 not_in_S3_0 not_in_S3_1 in_S3_2
      del: One_nat_def)

text \<open>
  Claim C1, as the specification states it: for the point at latitude 0, longitude 0 the
  descent returns the trixel named N0 at depth 1 and the trixel named N0-2 at depth 2.
  Neither holds: \<open>z = 0\<close> is not greater than 0, so the octant classifier takes the
  southern branch.
\<close>

theorem find_trixel_from_lat_lon_origin_not_N0:
  "\<not> (\<exists>t. find_trixel_from_lat_lon 0 0 1 = Inr t \<and> name t = ''N0'')
   \<and> \<not> (\<exists>t. find_trixel_from_lat_lon 0 0 2 = Inr t \<and> name t = ''N0-2'')"
  by (simp add: find_trixel_from_lat_lon_depth1 find_trixel_from_lat_lon_depth2
      octahedron_S3_def)

text \<open>
  Claim C1, amended: for the point at latitude 0, longitude 0 the descent returns the
  root trixel named S3 at depth 1 and the trixel named S3-2 at depth 2.
\<close>

theorem find_trixel_from_lat_lon_origin:
  "(\<exists>t. find_trixel_from_lat_lon 0 0 1 = Inr t \<and> name t = ''S3'')
   \<and> (\<exists>t. find_trixel_from_lat_lon 0 0 2 = Inr t \<and> name t = ''S3-2'')"
  by (simp add: find_trixel_from_lat_lon_depth1 find_trixel_from_lat_lon_depth2
      octahedron_S3_def)

section \<open>Classification of a trixel against a cap\<close>

lemma quarter_angles:
  "angle_between_np_vectors (1, 0, 0) (0, 0, 1) = pi / 2"
  "angle_between_np_vectors (0, 0, 1) (0, - 1, 0) = pi / 2"
  "angle_between_np_vectors (0, - 1, 0) (1, 0, 0) = pi / 2"
  by (simp_all add: angle_between_np_vectors_def)

lemma no_real_root:
  fixes a b c s :: real
  assumes "b * b - 4 * a * c < 0"
  shows "a * s\<^sup>2 + b * s + c \<noteq> 0"
proof
  assume z: "a * s\<^sup>2 + b * s + c = 0"
  have "(2 * a * s + b)\<^sup>2 = (b * b - 4 * a * c) + 4 * a * (a * s\<^sup>2 + b * s + c)"
    by (simp add: power2_eq_square algebra_simps)
  then have "(2 * a * s + b)\<^sup>2 < 0" using assms z by simp
  then show False using zero_le_power2[of "2 * a * s + b"] by linarith
qed

lemma side1_code: "side_has_root (2/3, 1/3, 2/3) (99/100) (1, 0, 0) (0, 0, 1)"
  by (simp add: side_has_root_def quarter_angles tan_45 Let_def np_roots_def
      quadratic_roots_def np_le_def)

lemma side1_spec: "\<not> spec_side_crossed (2/3, 1/3, 2/3) (99/100) (1, 0, 0) (0, 0, 1)"
proof -
  have "\<And>s::real. - (2/3 + 99/100) * s\<^sup>2 + (4/3) * s + (2/3 - 99/100) \<noteq> 0"
    by (rule no_real_root) simp
  then show ?thesis
    by (simp add: spec_side_crossed_def quarter_angles tan_45)
qed

lemma side2_spec: "\<not> spec_side_crossed (2/3, 1/3, 2/3) (99/100) (0, 0, 1) (0, - 1, 0)"
proof -
  have "\<And>s::real. - (2/3 + 99/100) * s\<^sup>2 + (- 2/3) * s + (2/3 - 99/100) \<noteq> 0"
    by (rule no_real_root) simp
  then show ?thesis
    by (simp add: spec_side_crossed_def quarter_angles tan_45)
qed

lemma side3_spec: "\<not> spec_side_crossed (2/3, 1/3, 2/3) (99/100) (0, - 1, 0) (1, 0, 0)"
proof -
  have "\<And>s::real. - (- 1/3 + 99/100) * s\<^sup>2 + (4/3) * s + (- 1/3 - 99/100) \<noteq> 0"
    by (rule no_real_root) simp
  then show ?thesis
    by (simp add: spec_side_crossed_def quarter_angles tan_45)
qed

lemma sqrt3_facts: "1 / sqrt 3 * (1 / sqrt 3) = (1::real) / 3" "1 / sqrt 3 \<le> (1::real)" "- 1 \<le> 1 / sqrt (3::real)"
proof -
  show "1 / sqrt 3 * (1 / sqrt 3) = (1::real) / 3" by (simp add: field_simps)
  have "1 \<le> sqrt (3::real)" by simp
  then show "1 / sqrt 3 \<le> (1::real)" by (simp add: field_simps)
  have "0 \<le> 1 / sqrt (3::real)" by simp
  then show "- 1 \<le> 1 / sqrt (3::real)" by linarith
qed

lemma bounding_angle:
  "angle_between_np_vectors (2/3, 1/3, 2/3) (1 / sqrt 3, - (1 / sqrt 3), 1 / sqrt 3)
     = arccos (1 / sqrt 3)"
proof -
  have n1: "np_norm (2/3, 1/3, 2/3) = 1"
  proof -
    have "(2/3) * (2/3) + (1/3) * (1/3) + (2/3) * (2/3) = (1::real)" by simp
    then show ?thesis by simp
  qed
  have n2: "np_norm (1 / sqrt 3, - (1 / sqrt 3), 1 / sqrt 3) = 1"
    by (simp add: sqrt3_facts(1))
  have d: "np_dot (2/3, 1/3, 2/3) (1 / sqrt 3, - (1 / sqrt 3), 1 / sqrt 3) = 1 / sqrt 3"
    by (simp add: field_simps)
  show ?thesis
    unfolding angle_between_np_vectors_def n1 n2 d using sqrt3_facts(2,3) by simp
qed

lemma arccos_cap_positive: "0 < arccos (99 / 100 :: real)"
  using arccos_lt_bounded[of "99 / 100 :: real"] by simp

lemma bounding_arcangle:
  "arcangle \<lparr>vector = (1 / sqrt 3, - (1 / sqrt 3), 1 / sqrt 3), distance = 1 / sqrt 3\<rparr>
     = Inr (arccos (1 / sqrt 3))"
  using sqrt3_facts(2,3) by (simp add: arcangle_def)

text \<open>
  Claim C3 says that intersects_halfspace classifies by exactly the procedure of the
  specification, whose test of a side asks for a real root \<open>s\<close> in \<open>[0, 1]\<close> of the
  quadratic. The source tests every root that \<^verbatim>\<open>np.roots\<close> returns with
  \<^verbatim>\<open>0 <= s <= 1\<close>. A quadratic with a negative discriminant has no real root; its roots
  are a pair of conjugate complex numbers, and in numpy's order a complex number whose
  real part lies strictly between 0 and 1 passes the test. For the root trixel N0 and
  the cap with axis \<open>(2/3, 1/3, 2/3)\<close> and distance \<open>99/100\<close>, no vertex is in the cap, the
  bounding cap is not disjoint from the cap, no side has a real root and the axis lies
  beyond the side from v0 to v1: the procedure answers OUTSIDE. The source answers PARTIAL
  at that side, whose roots have the real part \<open>200/497\<close>.
\<close>

theorem intersects_halfspace_complex_root:
  "intersects_halfspace octahedron_N0 \<lparr>vector = (2/3, 1/3, 2/3), distance = 99/100\<rparr>
     = Classified PARTIAL
   \<and> spec_classification octahedron_N0 \<lparr>vector = (2/3, 1/3, 2/3), distance = 99/100\<rparr>
     = OUTSIDE"
proof
  have arc_h: "arcangle \<lparr>vector = (2/3, 1/3, 2/3), distance = 99/100\<rparr> = Inr (arccos (99/100))"
    by (simp add: arcangle_def)
  show "intersects_halfspace octahedron_N0 \<lparr>vector = (2/3, 1/3, 2/3), distance = 99/100\<rparr>
     = Classified PARTIAL"
    unfolding intersects_halfspace_def octahedron_N0_def
    using arccos_cap_positive
    by (simp add: Let_def bounding_angle arc_h bounding_arcangle side1_code)
  have eps: "EPSILON * 3 < 1" by (simp add: EPSILON_def)
  show "spec_classification octahedron_N0 \<lparr>vector = (2/3, 1/3, 2/3), distance = 99/100\<rparr>
     = OUTSIDE"
    unfolding spec_classification_def octahedron_N0_def
    using arccos_cap_positive eps
    by (simp add: Let_def spec_normalize_def inverse_eq_divide bounding_angle
        side1_spec side2_spec side3_spec)
qed

section \<open>Cap enumeration\<close>

lemma classify_sets:
  "classify cls h ts (selected, candidates) = Inr (selected', candidates') \<Longrightarrow>
     set selected' \<subseteq> set selected \<union> set ts \<and> set candidates' \<subseteq> set candidates \<union> set ts"
proof (induction ts arbitrary: selected candidates)
  case Nil
  then show ?case by simp
next
  case (Cons t ts)
  from Cons.prems obtain c where c: "cls t h = Inr c"
    by (cases "cls t h") simp_all
  show ?case
  proof (cases c)
    case OUTSIDE
    with Cons.prems c have "classify cls h ts (selected, candidates) = Inr (selected', candidates')"
      by simp
    from Cons.IH[OF this] show ?thesis by auto
  next
    case PARTIAL
    with Cons.prems c
    have "classify cls h ts (selected, candidates @ [t]) = Inr (selected', candidates')"
      by simp
    from Cons.IH[OF this] show ?thesis by auto
  next
    case FULL
    with Cons.prems c
    have "classify cls h ts (selected @ [t], candidates) = Inr (selected', candidates')"
      by simp
    from Cons.IH[OF this] show ?thesis by auto
  qed
qed

lemma classify_returns:
  assumes "\<forall>t. \<exists>c. cls t h = Inr c"
  shows "\<exists>r. classify cls h ts (selected, candidates) = Inr r"
proof (induction ts arbitrary: selected candidates)
  case Nil
  show ?case by simp
next
  case (Cons t ts)
  from assms obtain c where c: "cls t h = Inr c" by blast
  show ?case using Cons.IH by (cases c) (simp_all add: c)
qed

lemma refine_rounds_depth:
  assumes "\<forall>t \<in> set selected. depth t \<le> m" "\<forall>t \<in> set candidates. depth t = m"
    and "refine_rounds cls h k (selected, candidates) = Inr (selected', candidates')"
  shows "(\<forall>t \<in> set selected'. depth t \<le> m + int k) \<and> (\<forall>t \<in> set candidates'. depth t = m + int k)"
  using assms
proof (induction k arbitrary: selected candidates m)
  case 0
  then show ?case by simp
next
  case (Suc k)
  let ?subs = "concat (map get_subtrixels candidates)"
  have subs: "\<forall>t \<in> set ?subs. depth t = m + 1"
    using Suc.prems(2) by (auto simp: depth_child)
  from Suc.prems(3) obtain sel cand where
    c: "classify cls h ?subs (selected, []) = Inr (sel, cand)"
    and r: "refine_rounds cls h k (sel, cand) = Inr (selected', candidates')"
    by (cases "classify cls h ?subs (selected, [])") auto
  from classify_sets[OF c] have sub: "set sel \<subseteq> set selected \<union> set ?subs" "set cand \<subseteq> set ?subs"
    by simp_all
  have a: "\<forall>t \<in> set sel. depth t \<le> m + 1"
  proof
    fix t assume "t \<in> set sel"
    then consider "t \<in> set selected" | "t \<in> set ?subs" using sub(1) by blast
    then show "depth t \<le> m + 1"
    proof cases
      case 1 then show ?thesis using Suc.prems(1) by fastforce
    next
      case 2 then show ?thesis using subs by fastforce
    qed
  qed
  have b: "\<forall>t \<in> set cand. depth t = m + 1"
    using subs sub(2) by blast
  from Suc.IH[OF a b r] show ?case by (simp add: add.assoc)
qed

lemma refine_rounds_returns:
  assumes "\<forall>t. \<exists>c. cls t h = Inr c"
  shows "\<exists>r. refine_rounds cls h k (selected, candidates) = Inr r"
proof (induction k arbitrary: selected candidates)
  case 0
  show ?case by simp
next
  case (Suc k)
  from classify_returns[of cls h, OF assms] obtain sel cand where
    "classify cls h (concat (map get_subtrixels candidates)) (selected, []) = Inr (sel, cand)"
    by (metis surj_pair)
  then show ?case using Suc.IH[of sel cand] by simp
qed

lemma get_all_trixels_to_depth_depths:
  assumes "get_all_trixels_to_depth cls h d = Inr base"
  shows "1 \<le> d \<and> (\<forall>t \<in> set base. depth t \<le> d)"
proof -
  from assms have d: "1 \<le> d" by (auto simp: get_all_trixels_to_depth_def split: if_splits)
  from assms d obtain s0 c0 where c: "classify cls h (map snd octahedron) ([], []) = Inr (s0, c0)"
    by (cases "classify cls h (map snd octahedron) ([], [])")
       (auto simp: get_all_trixels_to_depth_def)
  from assms d c obtain s1 c1 where r: "refine_rounds cls h (nat (d - 1)) (s0, c0) = Inr (s1, c1)"
    and base: "base = s1 @ c1"
    by (cases "refine_rounds cls h (nat (d - 1)) (s0, c0)")
       (auto simp: get_all_trixels_to_depth_def)
  from classify_sets[OF c] have "set s0 \<subseteq> set (map snd octahedron)" "set c0 \<subseteq> set (map snd octahedron)"
    by simp_all
  then have s0: "\<forall>t \<in> set s0. depth t \<le> 1" and c0: "\<forall>t \<in> set c0. depth t = 1"
    using depth_root by fastforce+
  from refine_rounds_depth[OF s0 c0 r] d
  have "\<forall>t \<in> set (s1 @ c1). depth t \<le> d" by auto
  with d base show ?thesis by simp
qed

lemma get_all_trixels_to_depth_returns:
  assumes "1 \<le> d" "\<forall>t. \<exists>c. cls t h = Inr c"
  shows "\<exists>base. get_all_trixels_to_depth cls h d = Inr base"
proof -
  from classify_returns[of cls h, OF assms(2)] obtain s0 c0 where
    c: "classify cls h (map snd octahedron) ([], []) = Inr (s0, c0)" by (metis surj_pair)
  from refine_rounds_returns[of cls h, OF assms(2)] obtain s1 c1 where
    r: "refine_rounds cls h (nat (d - 1)) (s0, c0) = Inr (s1, c1)" by (metis surj_pair)
  show ?thesis using assms(1) by (simp add: get_all_trixels_to_depth_def c r)
qed

lemma expand_rounds_append:
  "expand_rounds k (xs @ ys) = expand_rounds k xs @ expand_rounds k ys"
  by (induction k arbitrary: xs ys) simp_all

lemma expand_rounds_Nil: "expand_rounds k [] = []"
  by (induction k) simp_all

lemma expand_rounds_concat:
  "expand_rounds k (concat xss) = concat (map (expand_rounds k) xss)"
  by (induction xss) (simp_all add: expand_rounds_append expand_rounds_Nil)

lemma expand_rounds_descendants: "expand_rounds k [t] = descendants_at k t"
proof (induction k arbitrary: t)
  case 0
  show ?case by simp
next
  case (Suc k)
  have "expand_rounds (Suc k) [t] = expand_rounds k (concat (map (\<lambda>c. [c]) (get_subtrixels t)))"
    by simp
  also have "\<dots> = concat (map (\<lambda>c. expand_rounds k [c]) (get_subtrixels t))"
    unfolding expand_rounds_concat by (simp add: comp_def)
  finally show ?case by (simp add: Suc.IH)
qed

lemma expand_rounds_children: "expand_rounds k (get_subtrixels t) = descendants_at (Suc k) t"
  using expand_rounds_descendants[of "Suc k" t] by simp

lemma descendants_at_depth: "u \<in> set (descendants_at k t) \<Longrightarrow> depth u = depth t + int k"
  by (induction k arbitrary: t) (auto simp: depth_child)

lemma get_subtrixels_at_depth_descendants:
  assumes "1 \<le> d" "depth t \<le> d"
  shows "get_subtrixels_at_depth t d = Inr (descendants_at (nat (d - depth t)) t)"
proof (cases "depth t = d")
  case True
  then show ?thesis using assms by (simp add: get_subtrixels_at_depth_def)
next
  case False
  then have "nat (d - depth t) = Suc (nat (d - depth t - 1))" using assms by simp
  then show ?thesis
    using assms False by (simp add: get_subtrixels_at_depth_def expand_rounds_children)
qed

lemma expand_all_descendants:
  assumes "1 \<le> d" "\<forall>t \<in> set ts. depth t \<le> d"
  shows "expand_all d ts acc = Inr (acc @ concat (map (\<lambda>t. descendants_at (nat (d - depth t)) t) ts))"
  using assms(2)
proof (induction ts arbitrary: acc)
  case Nil
  show ?case by simp
next
  case (Cons t ts)
  then have le: "depth t \<le> d" and rest: "\<forall>t \<in> set ts. depth t \<le> d" by simp_all
  show ?case
    by (simp add: get_subtrixels_at_depth_descendants[OF assms(1) le] Cons.IH[OF rest])
qed

text \<open>
  Claim C6. For every halfspace H and every depth of at least 1, every trixel in the list
  returned by get_all_expanded_trixels_to_depth(H, depth) has depth exactly the requested
  depth: every trixel that get_all_trixels_to_depth accepted at a shallower depth is
  replaced by all of its descendants at the requested depth, and a trixel already at the
  requested depth is kept as it is (its descendants 0 levels below). The call returns
  whenever the depth is at least 1 and the classifier raises no exception. This holds
  for every classifier.
\<close>

theorem expanded_trixels_depth:
  "(get_all_expanded_trixels_to_depth cls h d = Inr ts \<longrightarrow>
      (\<exists>base. get_all_trixels_to_depth cls h d = Inr base
         \<and> ts = concat (map (\<lambda>t. descendants_at (nat (d - depth t)) t) base))
      \<and> (\<forall>t \<in> set ts. depth t = d))
   \<and> (1 \<le> d \<and> (\<forall>t. \<exists>c. cls t h = Inr c) \<longrightarrow>
        (\<exists>ts. get_all_expanded_trixels_to_depth cls h d = Inr ts))"
proof (intro conjI impI)
  assume e: "get_all_expanded_trixels_to_depth cls h d = Inr ts"
  then obtain base where b: "get_all_trixels_to_depth cls h d = Inr base"
    by (cases "get_all_trixels_to_depth cls h d")
       (auto simp: get_all_expanded_trixels_to_depth_def)
  from get_all_trixels_to_depth_depths[OF b]
  have d: "1 \<le> d" and bd: "\<forall>t \<in> set base. depth t \<le> d" by simp_all
  have ts: "ts = concat (map (\<lambda>t. descendants_at (nat (d - depth t)) t) base)"
    using e by (simp add: get_all_expanded_trixels_to_depth_def b expand_all_descendants[OF d bd])
  with b show "\<exists>base. get_all_trixels_to_depth cls h d = Inr base
         \<and> ts = concat (map (\<lambda>t. descendants_at (nat (d - depth t)) t) base)" by blast
  show "\<forall>t \<in> set ts. depth t = d"
    unfolding ts using bd by (auto dest!: descendants_at_depth)
next
  assume a: "1 \<le> d \<and> (\<forall>t. \<exists>c. cls t h = Inr c)"
  then obtain base where b: "get_all_trixels_to_depth cls h d = Inr base"
    using get_all_trixels_to_depth_returns by blast
  from get_all_trixels_to_depth_depths[OF b]
  have d: "1 \<le> d" and bd: "\<forall>t \<in> set base. depth t \<le> d" by simp_all
  show "\<exists>ts. get_all_expanded_trixels_to_depth cls h d = Inr ts"
    by (simp add: get_all_expanded_trixels_to_depth_def b expand_all_descendants[OF d bd])
qed

text \<open>An enumeration to depth 2 in which the root N0 is taken at depth 1 and the trixel
  S3-2 at depth 2.\<close>

lemma expanded_trixels_example:
  "map_sum id (map name)
     (get_all_expanded_trixels_to_depth
        (\<lambda>t h. Inr (if name t = ''N0'' then FULL
                     else if name t = ''S3'' \<or> name t = ''S3-2'' then PARTIAL else OUTSIDE))
        \<lparr>vector = (1, 0, 0), distance = 0\<rparr> 2)
   = Inr [''N0-0'', ''N0-1'', ''N0-2'', ''N0-3'', ''S3-2'']"
  by (simp add: get_all_expanded_trixels_to_depth_def get_all_trixels_to_depth_def
      octahedron_def octahedron_N0_def octahedron_N1_def octahedron_N2_def octahedron_N3_def
      octahedron_S0_def octahedron_S1_def octahedron_S2_def octahedron_S3_def
      get_subtrixels_def Let_def depth_def get_subtrixels_at_depth_def
      del: midpoint_xyz.simps)

theorem expanded_trixels_depth_witness:
  "(1::int) \<le> 2
   \<and> (\<exists>ts. get_all_expanded_trixels_to_depth
        (\<lambda>t h. Inr (if name t = ''N0'' then FULL
                     else if name t = ''S3'' \<or> name t = ''S3-2'' then PARTIAL else OUTSIDE))
        \<lparr>vector = (1, 0, 0), distance = 0\<rparr> 2 = Inr ts
      \<and> map name ts = [''N0-0'', ''N0-1'', ''N0-2'', ''N0-3'', ''S3-2'']
      \<and> list_all (\<lambda>t. depth t = 2) ts)"
proof -
  define cls :: classifier where
    "cls = (\<lambda>t h. Inr (if name t = ''N0'' then FULL
                     else if name t = ''S3'' \<or> name t = ''S3-2'' then PARTIAL else OUTSIDE))"
  define h :: Halfspace where "h = \<lparr>vector = (1, 0, 0), distance = 0\<rparr>"
  have one: "(1::int) \<le> 2" by simp
  have total: "\<forall>t. \<exists>c. cls t h = Inr c" by (simp add: cls_def)
  from expanded_trixels_depth[of cls h 2] one total
  obtain ts where ts: "get_all_expanded_trixels_to_depth cls h 2 = Inr ts" by blast
  from expanded_trixels_depth[of cls h 2 ts] ts have d: "\<forall>t \<in> set ts. depth t = 2" by blast
  from expanded_trixels_example have n: "map name ts = [''N0-0'', ''N0-1'', ''N0-2'', ''N0-3'', ''S3-2'']"
    using ts unfolding cls_def h_def by simp
  from d have l: "list_all (\<lambda>t. depth t = 2) ts" unfolding list_all_iff .
  show ?thesis
    using ts unfolding cls_def h_def
    by (intro conjI[OF one] exI[of _ ts] conjI n l)
qed

section \<open>The checks of trixels-in-radius\<close>

text \<open>For finite arguments the request is rejected exactly when an argument is out of
  its range.\<close>

lemma check_ranges_finite:
  "(check_ranges (Finite lat) (Finite lon) (Finite radius) \<noteq> None) =
     (\<not> (- 90 \<le> lat \<and> lat \<le> 90) \<or> \<not> (- 180 \<le> lon \<and> lon \<le> 180) \<or> \<not> (0 \<le> radius \<and> radius \<le> 1000))"
  by (auto simp: check_ranges_def MAX_RADIUS_def)

lemma check_ranges_nan_radius: "check_ranges (Finite 0) (Finite 0) NaN = None"
  by (simp add: check_ranges_def)

text \<open>
  Claim C8 says that a request with three numeric parameters is rejected if and only if
  the latitude is outside [-90, 90], the longitude outside [-180, 180] or the radius
  outside [0, 1000]. \<^verbatim>\<open>float("nan")\<close> is a number for Python and lies in no interval. The
  checks of latitude and longitude are negated chains, which reject a NaN; the checks of
  the radius are \<^verbatim>\<open>radius < 0\<close> and \<^verbatim>\<open>radius > MAX_RADIUS\<close>, which are both false for
  a NaN. A request with the radius \<^verbatim>\<open>nan\<close> is not rejected: the handler goes on to the
  enumeration.
\<close>

theorem trixels_in_halfspace_nan_radius:
  "trixels_in_halfspace
     (\<lambda>s. if s = ''nan'' then Some NaN else if s = ''0'' then Some (Finite 0) else None)
     cls (Some ''0'') (Some ''0'') (Some ''nan'')
   = Enumeration_On_Non_Finite (Finite 0) (Finite 0) NaN"
  by (simp add: trixels_in_halfspace_def check_ranges_nan_radius)

text \<open>A NaN latitude or longitude is rejected.\<close>

lemma check_ranges_nan_lat_lon:
  "check_ranges NaN lon radius \<noteq> None" "check_ranges lat NaN radius \<noteq> None"
  by (simp_all add: check_ranges_def)

section \<open>The lookup of detailed-by-trixel-names\<close>

lemma py_call1_no_argument: "py_call1 f [] = Inl TypeError"
  by (simp add: py_call1_def)

lemma detailed_by_trixel_names_no_data:
  "detailed_by_trixel_names g fs sd body \<noteq> Detailed_Data data"
  by (simp add: detailed_by_trixel_names_def py_call1_no_argument
      split: option.splits list.splits prod.splits)

lemma example_dataset_dir: "path_join ''/srv'' [''data'', ''processed'', ''a''] = ''/srv/data/processed/a''"
  by (simp add: path_join_def path_join2_def)

lemma example_trixel_file: "path_join ''/srv/data/processed/a'' [replace_dash ''..-otherdataset-N0'', ''data.npy'']
   = ''/srv/data/processed/a/../otherdataset/N0/data.npy''"
  by (simp add: path_join_def path_join2_def replace_dash_def)

lemma example_trixel_file_resolved: "resolve example_fs ''/srv/data/processed/a/../otherdataset/N0/data.npy''
   = Some [''srv'', ''data'', ''processed'', ''otherdataset'', ''N0'', ''data.npy'']"
  by (simp add: resolve_def example_fs_def)

lemma example_dataset_dir_resolved: "resolve example_fs ''/srv/data/processed/a'' = Some [''srv'', ''data'', ''processed'', ''a'']"
  by (simp add: resolve_def example_fs_def)

lemma example_collected: "collect_trixel_data example_fs ''/srv/data/processed/a'' [''..-otherdataset-N0''] Map.empty
   = Inr [''..-otherdataset-N0'' \<mapsto> [[1, 2, 3, 4, 5, 6]]]"
  by (simp add: example_trixel_file path_exists_def np_load_def example_trixel_file_resolved) (simp add: example_fs_def)

text \<open>
  The loop of detailed_by_trixel_names that builds the file paths, run on its own. It does
  not compare the requested names with the trixel name grammar. For the dataset \<^verbatim>\<open>a\<close>
  and the requested name \<^verbatim>\<open>..-otherdataset-N0\<close>, the path obtained by replacing \<^verbatim>\<open>-\<close>
  with the path separator and joining onto the dataset directory is
  \<^verbatim>\<open>/srv/data/processed/a/../otherdataset/N0/data.npy\<close>; it resolves to a file outside the
  directory of the dataset, and the loop stores the contents of that file under the
  requested name.
\<close>

lemma collect_trixel_data_traversal:
  "path_join ''/srv'' [''data'', ''processed'', ''a''] = ''/srv/data/processed/a''
   \<and> path_join ''/srv/data/processed/a'' [replace_dash ''..-otherdataset-N0'', ''data.npy'']
       = ''/srv/data/processed/a/../otherdataset/N0/data.npy''
   \<and> resolve example_fs ''/srv/data/processed/a'' = Some [''srv'', ''data'', ''processed'', ''a'']
   \<and> resolve example_fs ''/srv/data/processed/a/../otherdataset/N0/data.npy''
       = Some [''srv'', ''data'', ''processed'', ''otherdataset'', ''N0'', ''data.npy'']
   \<and> \<not> prefix [''srv'', ''data'', ''processed'', ''a'']
                [''srv'', ''data'', ''processed'', ''otherdataset'', ''N0'', ''data.npy'']
   \<and> collect_trixel_data example_fs ''/srv/data/processed/a'' [''..-otherdataset-N0''] Map.empty
       = Inr [''..-otherdataset-N0'' \<mapsto> [[1, 2, 3, 4, 5, 6]]]"
  by (intro conjI example_dataset_dir example_trixel_file example_trixel_file_resolved
      example_dataset_dir_resolved example_collected) simp

text \<open>
  Claim C9: for some requested name with \<^verbatim>\<open>..\<close> segments the handler returns the contents
  of a file outside the directory of the requested dataset. The code departs from this,
  and from the handler's own description, which promises the data points of the requested
  trixels: once the body has passed its checks, the call \<^verbatim>\<open>get_dataset_names()\<close> passes
  no argument to a function with one required parameter and raises TypeError, before any
  path is built, so the handler returns no contents for any request. Here the handler is
  run on the request that the claim names, in a file system where the loop on its own
  would have read the file outside the dataset.
\<close>

theorem detailed_by_trixel_names_raises:
  "detailed_by_trixel_names (\<lambda>datasets_dir. [''a'', ''otherdataset'']) example_fs ''/srv''
     (Some (Some [''..-otherdataset-N0''], Some ''a'')) = Detailed_Unhandled TypeError"
  by (simp add: detailed_by_trixel_names_def py_call1_no_argument)

section \<open>The UTM to trixel mapping\<close>

lemma built_rows: "built_mapping m \<Longrightarrow> int (length (mapping m)) = max_y m - min_y m + 1"
  by (simp add: built_mapping_def)

lemma built_row:
  assumes "built_mapping m" "min_y m \<le> y" "y \<le> max_y m"
  shows "int (length (mapping m ! nat (y - min_y m))) = max_x m - min_x m + 1"
proof -
  have "nat (y - min_y m) < length (mapping m)" using built_rows[OF assms(1)] assms(2,3) by arith
  then have "mapping m ! nat (y - min_y m) \<in> set (mapping m)" by simp
  then show ?thesis using assms(1) by (simp add: built_mapping_def list_all_iff)
qed

lemma py_index_nonneg: "0 \<le> i \<Longrightarrow> i < int (length xs) \<Longrightarrow> py_index xs i = Inr (xs ! nat i)"
  by (simp add: py_index_def)

lemma py_index_negative:
  "i < 0 \<Longrightarrow> - int (length xs) \<le> i \<Longrightarrow> py_index xs i = Inr (xs ! nat (int (length xs) + i))"
  by (simp add: py_index_def)

lemma get_trixel_name_in_bounds:
  assumes "built_mapping m" "min_x m \<le> x" "x \<le> max_x m" "min_y m \<le> y" "y \<le> max_y m"
  shows "get_trixel_name m x y = Inr (cell m x y)"
proof -
  have r: "py_index (mapping m) (y - min_y m) = Inr (mapping m ! nat (y - min_y m))"
    using built_rows[OF assms(1)] assms(4,5) by (intro py_index_nonneg) arith+
  have c: "py_index (mapping m ! nat (y - min_y m)) (x - min_x m)
             = Inr (mapping m ! nat (y - min_y m) ! nat (x - min_x m))"
    using built_row[OF assms(1,4,5)] assms(2,3) by (intro py_index_nonneg) arith+
  show ?thesis by (simp only: get_trixel_name_def r c cell_def sum.case)
qed

lemma get_trixel_name_left:
  assumes "built_mapping m" "min_y m \<le> y" "y \<le> max_y m"
    and "x < min_x m" "min_x m - (max_x m - min_x m + 1) \<le> x"
  shows "get_trixel_name m x y = Inr (cell m (x + (max_x m - min_x m + 1)) y)"
proof -
  let ?row = "mapping m ! nat (y - min_y m)"
  have r: "py_index (mapping m) (y - min_y m) = Inr ?row"
    using built_rows[OF assms(1)] assms(2,3) by (intro py_index_nonneg) arith+
  have len: "int (length ?row) = max_x m - min_x m + 1" by (rule built_row[OF assms(1,2,3)])
  have c: "py_index ?row (x - min_x m) = Inr (?row ! nat (int (length ?row) + (x - min_x m)))"
    using len assms(4,5) by (intro py_index_negative) arith+
  have e: "int (length ?row) + (x - min_x m) = x + (max_x m - min_x m + 1) - min_x m"
    using len by arith
  show ?thesis by (simp only: get_trixel_name_def r c e cell_def sum.case)
qed

lemma get_trixel_name_below:
  assumes "built_mapping m" "min_x m \<le> x" "x \<le> max_x m"
    and "y < min_y m" "min_y m - (max_y m - min_y m + 1) \<le> y"
  shows "get_trixel_name m x y = Inr (cell m x (y + (max_y m - min_y m + 1)))"
proof -
  let ?y' = "y + (max_y m - min_y m + 1)"
  have len: "int (length (mapping m)) = max_y m - min_y m + 1" by (rule built_rows[OF assms(1)])
  have e: "int (length (mapping m)) + (y - min_y m) = ?y' - min_y m"
    using len by arith
  have r: "py_index (mapping m) (y - min_y m) = Inr (mapping m ! nat (?y' - min_y m))"
    unfolding e[symmetric] using len assms(4,5) by (intro py_index_negative) arith+
  have y': "min_y m \<le> ?y'" "?y' \<le> max_y m" using assms(4,5) by arith+
  have c: "py_index (mapping m ! nat (?y' - min_y m)) (x - min_x m)
             = Inr (mapping m ! nat (?y' - min_y m) ! nat (x - min_x m))"
    using built_row[OF assms(1) y'] assms(2,3) by (intro py_index_nonneg) arith+
  show ?thesis by (simp only: get_trixel_name_def r c cell_def sum.case)
qed

text \<open>
  Claim C10. Mapping.get_trixel_name(x, y) returns the name stored for the cell (x, y)
  under the precondition min_x \<le> x \<le> max_x and min_y \<le> y \<le> max_y. It checks no bounds:
  for an x below min_x by at most the width of the rectangle, or a y below min_y by at
  most its height, the negative index counts from the end of the list and the call
  returns, without failing, the name of the cell one width to the right, or one height
  above.
\<close>

theorem get_trixel_name_unchecked:
  assumes "built_mapping m"
  shows "(min_x m \<le> x \<and> x \<le> max_x m \<and> min_y m \<le> y \<and> y \<le> max_y m \<longrightarrow>
            get_trixel_name m x y = Inr (cell m x y))
       \<and> (min_y m \<le> y \<and> y \<le> max_y m \<and> x < min_x m \<and> min_x m - (max_x m - min_x m + 1) \<le> x \<longrightarrow>
            get_trixel_name m x y = Inr (cell m (x + (max_x m - min_x m + 1)) y))
       \<and> (min_x m \<le> x \<and> x \<le> max_x m \<and> y < min_y m \<and> min_y m - (max_y m - min_y m + 1) \<le> y \<longrightarrow>
            get_trixel_name m x y = Inr (cell m x (y + (max_y m - min_y m + 1))))"
  using assms get_trixel_name_in_bounds get_trixel_name_left get_trixel_name_below by blast

text \<open>A mapping of one row and two columns: the cell left of the first column and the cell
  below the row answer with the names of other cells.\<close>

theorem get_trixel_name_unchecked_witness:
  "built_mapping \<lparr>min_x = 0, min_y = 0, max_x = 1, max_y = 0, mapping = [[''N0-0'', ''N0-1'']]\<rparr>
   \<and> get_trixel_name \<lparr>min_x = 0, min_y = 0, max_x = 1, max_y = 0, mapping = [[''N0-0'', ''N0-1'']]\<rparr> 1 0 = Inr ''N0-1''
   \<and> get_trixel_name \<lparr>min_x = 0, min_y = 0, max_x = 1, max_y = 0, mapping = [[''N0-0'', ''N0-1'']]\<rparr> (- 1) 0 = Inr ''N0-1''
   \<and> get_trixel_name \<lparr>min_x = 0, min_y = 0, max_x = 1, max_y = 0, mapping = [[''N0-0'', ''N0-1'']]\<rparr> 0 (- 1) = Inr ''N0-0''"
proof -
  let ?m = "\<lparr>min_x = 0, min_y = 0, max_x = 1, max_y = 0, mapping = [[''N0-0'', ''N0-1'']]\<rparr>"
  have b: "built_mapping ?m" by (simp add: built_mapping_def)
  from get_trixel_name_unchecked[OF b, of 1 0] have 1: "get_trixel_name ?m 1 0 = Inr ''N0-1''"
    by (simp add: cell_def)
  from get_trixel_name_unchecked[OF b, of "- 1" 0] have 2: "get_trixel_name ?m (- 1) 0 = Inr ''N0-1''"
    by (simp add: cell_def)
  from get_trixel_name_unchecked[OF b, of 0 "- 1"] have 3: "get_trixel_name ?m 0 (- 1) = Inr ''N0-0''"
    by (simp add: cell_def)
  from b 1 2 3 show ?thesis by blast
qed

section \<open>Backfill\<close>

subsection \<open>Names, parents and files\<close>

lemma root_name_chars: "r \<in> set (map fst octahedron) \<Longrightarrow> r \<noteq> [] \<and> CHR ''/'' \<notin> set r"
  by (auto simp: octahedron_def)

lemma digit_chars: "d \<in> {''0'', ''1'', ''2'', ''3''} \<Longrightarrow> d \<noteq> [] \<and> CHR ''/'' \<notin> set d"
  by auto

lemma name_ok_split:
  assumes "trixel_name_ok n"
  obtains r ds where "split_sep CHR ''-'' n = r # ds" "r \<in> set (map fst octahedron)"
    "\<forall>d \<in> set ds. d \<in> {''0'', ''1'', ''2'', ''3''}"
proof (cases "split_sep CHR ''-'' n")
  case Nil
  then show ?thesis using split_sep_nonempty by blast
next
  case (Cons r ds)
  from assms have "r \<in> set (map fst octahedron) \<and> list_all (\<lambda>d. d \<in> {''0'', ''1'', ''2'', ''3''}) ds"
    unfolding trixel_name_ok_def Cons by (simp only: list.case)
  then show ?thesis using that Cons unfolding list_all_iff by blast
qed

lemma name_ok_pieces:
  assumes "trixel_name_ok n"
  shows "\<forall>w \<in> set (split_sep CHR ''-'' n). w \<noteq> [] \<and> CHR ''/'' \<notin> set w"
proof
  fix w assume w: "w \<in> set (split_sep CHR ''-'' n)"
  from assms obtain r ds where sp: "split_sep CHR ''-'' n = r # ds"
    and r: "r \<in> set (map fst octahedron)"
    and ds: "\<forall>d \<in> set ds. d \<in> {''0'', ''1'', ''2'', ''3''}"
    by (rule name_ok_split)
  from w sp have "w = r \<or> w \<in> set ds" by simp
  then show "w \<noteq> [] \<and> CHR ''/'' \<notin> set w"
  proof
    assume "w = r"
    then show ?thesis using root_name_chars[OF r] by simp
  next
    assume "w \<in> set ds"
    then have "w \<in> {''0'', ''1'', ''2'', ''3''}" using ds by blast
    then show ?thesis by (rule digit_chars)
  qed
qed

text \<open>The file of a trixel: what \<^verbatim>\<open>os.path.join\<close> puts before the directories of the
  name, the directories, and the file name.\<close>

lemma trixel_file_formula:
  assumes "trixel_name_ok n"
  shows "trixel_file pp n =
           (if pp = [] \<or> last pp = CHR ''/'' then pp else pp @ ''/'')
             @ join_sep ''/'' (split_sep CHR ''-'' n) @ ''/data.npy''"
proof -
  define segs where "segs = split_sep CHR ''-'' n"
  define r where "r = join_sep ''/'' segs"
  have ne: "segs \<noteq> []" unfolding segs_def by (rule split_sep_nonempty)
  have pieces: "\<forall>w \<in> set segs. w \<noteq> [] \<and> CHR ''/'' \<notin> set w"
    unfolding segs_def by (rule name_ok_pieces[OF assms])
  have hd_ne: "hd segs \<noteq> []" and hd_slash: "CHR ''/'' \<notin> set (hd segs)"
    using ne pieces by simp_all
  have r_ne: "r \<noteq> []" unfolding r_def using ne hd_ne by (rule join_sep_nonempty)
  have "hd r = hd (hd segs)" unfolding r_def using ne hd_ne by (rule hd_join_sep)
  moreover have "hd (hd segs) \<in> set (hd segs)" using hd_ne by simp
  ultimately have hd_r: "hd r \<noteq> CHR ''/''" using hd_slash by auto
  have last_ne: "last segs \<noteq> []" and last_slash: "CHR ''/'' \<notin> set (last segs)"
    using ne pieces by simp_all
  have "last r = last (last segs)" unfolding r_def using ne pieces by (intro last_join_sep) simp_all
  moreover have "last (last segs) \<in> set (last segs)" using last_ne by simp
  ultimately have last_r: "last r \<noteq> CHR ''/''" using last_slash by auto
  have rd: "replace_dash n = r" unfolding r_def segs_def by (rule replace_dash_name)
  show ?thesis
    unfolding trixel_file_def path_join_def rd r_def[symmetric] segs_def[symmetric]
    using r_ne hd_r last_r by (simp add: path_join2_def)
qed

lemma name_ok_pieces_slash:
  "trixel_name_ok n \<Longrightarrow> \<forall>w \<in> set (split_sep CHR ''-'' n). CHR ''/'' \<notin> set w"
  using name_ok_pieces by blast

lemma trixel_file_inj:
  assumes "trixel_name_ok a" "trixel_name_ok b" "trixel_file pp a = trixel_file pp b"
  shows "a = b"
proof -
  define sa where "sa = split_sep CHR ''-'' a"
  define sb where "sb = split_sep CHR ''-'' b"
  have na: "sa \<noteq> []" and nb: "sb \<noteq> []" unfolding sa_def sb_def by (rule split_sep_nonempty)+
  have pa: "\<forall>w \<in> set sa. CHR ''/'' \<notin> set w" unfolding sa_def by (rule name_ok_pieces_slash[OF assms(1)])
  have pb: "\<forall>w \<in> set sb. CHR ''/'' \<notin> set w" unfolding sb_def by (rule name_ok_pieces_slash[OF assms(2)])
  have "join_sep ''/'' sa = join_sep ''/'' sb"
    using assms(3) unfolding trixel_file_formula[OF assms(1)] trixel_file_formula[OF assms(2)]
      sa_def sb_def by simp
  then have "split_sep CHR ''/'' (join_sep ''/'' sa) = split_sep CHR ''/'' (join_sep ''/'' sb)"
    by simp
  then have "sa = sb" unfolding split_join[OF na pa] split_join[OF nb pb] .
  then have "join_sep ''-'' sa = join_sep ''-'' sb" by simp
  then show ?thesis unfolding sa_def sb_def join_split .
qed

lemma parent_pieces:
  assumes "2 \<le> name_depth n"
  shows "split_sep CHR ''-'' (parent_trixel_name n) = butlast (split_sep CHR ''-'' n)"
proof -
  define segs where "segs = split_sep CHR ''-'' n"
  have "2 \<le> length segs" using assms unfolding name_depth_def segs_def by simp
  then have ne: "butlast segs \<noteq> []" by (cases segs; cases "tl segs") auto
  have "\<forall>w \<in> set segs. CHR ''-'' \<notin> set w"
    unfolding segs_def using split_pieces_no_sep by blast
  then have "\<forall>w \<in> set (butlast segs). CHR ''-'' \<notin> set w"
    by (blast dest: in_set_butlastD)
  from split_join[OF ne this] show ?thesis
    unfolding parent_trixel_name_def segs_def .
qed

lemma parent_depth: "2 \<le> name_depth n \<Longrightarrow> name_depth (parent_trixel_name n) = name_depth n - 1"
  unfolding name_depth_def[of "parent_trixel_name n"] parent_pieces
  by (simp add: name_depth_def)

lemma parent_ok:
  assumes "trixel_name_ok n" "2 \<le> name_depth n"
  shows "trixel_name_ok (parent_trixel_name n)"
proof -
  from assms(1) obtain r ds where sp: "split_sep CHR ''-'' n = r # ds"
    and r: "r \<in> set (map fst octahedron)"
    and ds: "\<forall>d \<in> set ds. d \<in> {''0'', ''1'', ''2'', ''3''}"
    by (rule name_ok_split)
  from assms(2) have "ds \<noteq> []" unfolding name_depth_def sp by auto
  then have b: "butlast (r # ds) = r # butlast ds" by simp
  have "\<forall>d \<in> set (butlast ds). d \<in> {''0'', ''1'', ''2'', ''3''}"
    using ds by (blast dest: in_set_butlastD)
  then have "list_all (\<lambda>d. d \<in> {''0'', ''1'', ''2'', ''3''}) (butlast ds)"
    unfolding list_all_iff .
  with r show ?thesis
    unfolding trixel_name_ok_def parent_pieces[OF assms(2)] sp b by (simp only: list.case simp_thms)
qed

lemma descends_parent:
  assumes "2 \<le> name_depth c" "descends_from s c"
  shows "descends_from s (parent_trixel_name c)"
proof -
  have "prefix (butlast (split_sep CHR ''-'' c)) (split_sep CHR ''-'' c)"
    by (rule prefixeq_butlast)
  then show ?thesis
    using assms(2) unfolding descends_from_def parent_pieces[OF assms(1)]
    by (rule prefix_order.order_trans)
qed

lemma prefix_same_length: "prefix xs zs \<Longrightarrow> prefix ys zs \<Longrightarrow> length xs = length ys \<Longrightarrow> xs = ys"
  by (auto simp: prefix_def append_eq_append_conv)

lemma descends_same_depth:
  assumes "descends_from s a" "descends_from s b" "name_depth a = name_depth b"
  shows "a = b"
proof -
  have "length (split_sep CHR ''-'' a) = length (split_sep CHR ''-'' b)"
    using assms(3) unfolding name_depth_def by simp
  with assms(1,2) have "split_sep CHR ''-'' a = split_sep CHR ''-'' b"
    unfolding descends_from_def by (rule prefix_same_length)
  then have "join_sep ''-'' (split_sep CHR ''-'' a) = join_sep ''-'' (split_sep CHR ''-'' b)" by simp
  then show ?thesis unfolding join_split .
qed

lemma descends_to_parent:
  assumes "2 \<le> name_depth c" "descends_from s c" "descends_from s p"
    "name_depth p = name_depth c - 1"
  shows "parent_trixel_name c = p"
proof (rule descends_same_depth)
  show "descends_from s (parent_trixel_name c)" by (rule descends_parent[OF assms(1,2)])
  show "descends_from s p" by (rule assms(3))
  show "name_depth (parent_trixel_name c) = name_depth p"
    unfolding parent_depth[OF assms(1)] assms(4) ..
qed

lemma descends_refl: "descends_from s s"
  by (simp add: descends_from_def)

subsection \<open>One level\<close>

text \<open>The store after the inner loop: the blob of every parent is what it was, followed by
  the blobs of its children in the order of the list; nothing else changes.\<close>

lemma backfill_level_result:
  assumes "\<forall>c \<in> set ns. store (trixel_file pp c) \<noteq> None"
    and "\<forall>c \<in> set ns. \<forall>c' \<in> set ns.
           trixel_file pp (parent_trixel_name c) \<noteq> trixel_file pp c'"
  shows "backfill_level pp ns store =
    Inr (\<lambda>q. if q \<in> (\<lambda>c. trixel_file pp (parent_trixel_name c)) ` set ns
              then Some (rows_at store q @
                     concat (map (\<lambda>c. rows_at store (trixel_file pp c))
                                 (filter (\<lambda>c. trixel_file pp (parent_trixel_name c) = q) ns)))
              else store q)"
  using assms
proof (induction ns arbitrary: store)
  case Nil
  show ?case by simp
next
  case (Cons c ns)
  define pf where "pf = trixel_file pp (parent_trixel_name c)"
  define PF where "PF = (\<lambda>c. trixel_file pp (parent_trixel_name c))"
  obtain data where data: "store (trixel_file pp c) = Some data"
    using Cons.prems(1) by auto
  have rows_c: "rows_at store (trixel_file pp c) = data" by (simp add: rows_at_def data)
  define store1 where "store1 = store(pf \<mapsto> rows_at store pf @ data)"
  have upd: "(case store pf of Some parent_trixel_data \<Rightarrow> parent_trixel_data @ data
              | None \<Rightarrow> data) = rows_at store pf @ data"
    by (simp add: rows_at_def split: option.splits)
  have step: "backfill_level pp (c # ns) store = backfill_level pp ns store1"
    by (simp add: data pf_def[symmetric] upd store1_def)
  have not_pf: "\<forall>c' \<in> set (c # ns). trixel_file pp c' \<noteq> pf"
    using Cons.prems(2) unfolding pf_def by (metis list.set_intros(1))
  have same: "\<forall>c' \<in> set (c # ns). store1 (trixel_file pp c') = store (trixel_file pp c')"
    using not_pf by (simp add: store1_def)
  have p1: "\<forall>c' \<in> set ns. store1 (trixel_file pp c') \<noteq> None"
    using same Cons.prems(1) by simp
  have p2: "\<forall>a \<in> set ns. \<forall>b \<in> set ns.
           trixel_file pp (parent_trixel_name a) \<noteq> trixel_file pp b"
    using Cons.prems(2) by simp
  have rows_same: "\<forall>c' \<in> set ns. rows_at store1 (trixel_file pp c') = rows_at store (trixel_file pp c')"
    using same by (simp add: rows_at_def)
  have maps: "\<And>q. map (\<lambda>c. rows_at store1 (trixel_file pp c)) (filter (\<lambda>c. PF c = q) ns)
                 = map (\<lambda>c. rows_at store (trixel_file pp c)) (filter (\<lambda>c. PF c = q) ns)"
    using rows_same by (intro map_cong) auto
  have "backfill_level pp ns store1 =
    Inr (\<lambda>q. if q \<in> PF ` set ns
              then Some (rows_at store1 q @
                     concat (map (\<lambda>c. rows_at store1 (trixel_file pp c))
                                 (filter (\<lambda>c. PF c = q) ns)))
              else store1 q)"
    unfolding PF_def by (rule Cons.IH[OF p1 p2])
  also have "(\<lambda>q. if q \<in> PF ` set ns
              then Some (rows_at store1 q @
                     concat (map (\<lambda>c. rows_at store1 (trixel_file pp c))
                                 (filter (\<lambda>c. PF c = q) ns)))
              else store1 q)
     = (\<lambda>q. if q \<in> PF ` set (c # ns)
              then Some (rows_at store q @
                     concat (map (\<lambda>c. rows_at store (trixel_file pp c))
                                 (filter (\<lambda>c. PF c = q) (c # ns))))
              else store q)"
  proof
    fix q
    show "(if q \<in> PF ` set ns
              then Some (rows_at store1 q @
                     concat (map (\<lambda>c. rows_at store1 (trixel_file pp c))
                                 (filter (\<lambda>c. PF c = q) ns)))
              else store1 q)
       = (if q \<in> PF ` set (c # ns)
              then Some (rows_at store q @
                     concat (map (\<lambda>c. rows_at store (trixel_file pp c))
                                 (filter (\<lambda>c. PF c = q) (c # ns))))
              else store q)"
    proof (cases "q = pf")
      case True
      have pfc: "PF c = pf" by (simp add: PF_def pf_def)
      have r1: "rows_at store1 pf = rows_at store pf @ data" by (simp add: store1_def rows_at_def)
      show ?thesis
      proof (cases "pf \<in> PF ` set ns")
        case True
        then show ?thesis using \<open>q = pf\<close> pfc by (simp add: maps r1 rows_c)
      next
        case False
        then have "filter (\<lambda>c. PF c = pf) ns = []" by (auto simp: filter_empty_conv)
        then show ?thesis using False \<open>q = pf\<close> pfc by (simp add: rows_c store1_def)
      qed
    next
      case False
      then have pfc: "PF c \<noteq> q" by (simp add: PF_def pf_def)
      have "rows_at store1 q = rows_at store q" "store1 q = store q"
        using False by (simp_all add: store1_def rows_at_def)
      then show ?thesis using pfc by (simp add: maps)
    qed
  qed
  finally show ?case unfolding step PF_def .
qed

lemma sum_list_unique:
  fixes a :: "'a::comm_monoid_add"
  assumes "distinct cs" "\<forall>c \<in> set cs. \<forall>c' \<in> set cs. Q c \<and> Q c' \<longrightarrow> c = c'"
  shows "sum_list (map (\<lambda>c. if Q c then a else 0) cs) = (if \<exists>c \<in> set cs. Q c then a else 0)"
  using assms
proof (induction cs)
  case Nil
  show ?case by simp
next
  case (Cons c cs)
  have ih: "sum_list (map (\<lambda>c. if Q c then a else 0) cs) = (if \<exists>c \<in> set cs. Q c then a else 0)"
    using Cons by simp
  show ?case
  proof (cases "Q c")
    case True
    then have "\<not> (\<exists>c' \<in> set cs. Q c')" using Cons.prems by auto
    then show ?thesis using True ih by simp
  next
    case False
    then show ?thesis using ih by simp
  qed
qed

lemma sum_list_regroup:
  fixes h :: "'b \<Rightarrow> 'a::comm_monoid_add"
  assumes "distinct cs"
    and "\<forall>s \<in> set xs. \<forall>c \<in> set cs. \<forall>c' \<in> set cs. Q c s \<and> Q c' s \<longrightarrow> c = c'"
    and "\<forall>s \<in> set xs. Q' s = (\<exists>c \<in> set cs. Q c s)"
  shows "sum_list (map (\<lambda>c. sum_list (map h (filter (Q c) xs))) cs) = sum_list (map h (filter Q' xs))"
  using assms(2,3)
proof (induction xs)
  case Nil
  show ?case by simp
next
  case (Cons s xs)
  have ih: "sum_list (map (\<lambda>c. sum_list (map h (filter (Q c) xs))) cs) = sum_list (map h (filter Q' xs))"
    using Cons by simp
  have "sum_list (map (\<lambda>c. sum_list (map h (filter (Q c) (s # xs)))) cs)
        = sum_list (map (\<lambda>c. (if Q c s then h s else 0) + sum_list (map h (filter (Q c) xs))) cs)"
    by (intro arg_cong[where f = sum_list] map_cong) auto
  also have "\<dots> = sum_list (map (\<lambda>c. if Q c s then h s else 0) cs)
                  + sum_list (map (\<lambda>c. sum_list (map h (filter (Q c) xs))) cs)"
    by (rule sum_list_addf)
  also have "sum_list (map (\<lambda>c. if Q c s then h s else 0) cs) = (if \<exists>c \<in> set cs. Q c s then h s else 0)"
    using assms(1) Cons.prems(1) by (intro sum_list_unique) auto
  also have "(if \<exists>c \<in> set cs. Q c s then h s else 0) = (if Q' s then h s else 0)"
    using Cons.prems(2) by simp
  finally show ?case using ih by simp
qed

lemma mset_leaf_rows:
  "mset (leaf_rows pp store saved n) =
     sum_list (map (\<lambda>s. mset (rows_at store (trixel_file pp s)))
                   (filter (\<lambda>s. descends_from s n) saved))"
  by (simp add: leaf_rows_def mset_concat comp_def)

lemma backfill_level_step:
  assumes tl: "\<forall>xs. set (to_list xs) = set xs \<and> distinct (to_list xs)"
    and k: "1 \<le> k"
    and inv: "level_ok pp store0 saved (k + 1) prev store"
  shows "\<exists>store'. backfill_level pp prev store = Inr store'
           \<and> level_ok pp store0 saved k (to_list (map parent_trixel_name prev)) store'
           \<and> (\<forall>q. store' q \<noteq> store q \<longrightarrow>
                 (\<exists>m. trixel_name_ok m \<and> name_depth m = k \<and> q = trixel_file pp m))
           \<and> (\<forall>q. store' q \<noteq> store q \<longrightarrow>
                 q \<in> trixel_file pp ` set (to_list (map parent_trixel_name prev)))"
proof -
  define PF where "PF = (\<lambda>c. trixel_file pp (parent_trixel_name c))"
  define nxt where "nxt = to_list (map parent_trixel_name prev)"
  define h where "h = (\<lambda>s. mset (rows_at store0 (trixel_file pp s)))"
  from inv have dist: "distinct prev"
    and ok: "\<forall>n \<in> set prev. trixel_name_ok n \<and> name_depth n = k + 1"
    and cover: "\<forall>s \<in> set saved. \<exists>n \<in> set prev. descends_from s n"
    and blobs: "\<forall>n \<in> set prev. \<exists>rows. store (trixel_file pp n) = Some rows
             \<and> mset rows = mset (leaf_rows pp store0 saved n)"
    and none: "\<forall>m. trixel_name_ok m \<and> name_depth m < k + 1 \<longrightarrow> store (trixel_file pp m) = None"
    and leafs: "\<forall>n \<in> set prev. \<exists>s \<in> set saved. descends_from s n"
    unfolding level_ok_def by blast+
  have deep: "\<forall>c \<in> set prev. 2 \<le> name_depth c" using ok k by auto
  have pok: "\<forall>c \<in> set prev. trixel_name_ok (parent_trixel_name c)"
    using ok deep parent_ok by blast
  have pdepth: "\<forall>c \<in> set prev. name_depth (parent_trixel_name c) = k"
    using ok deep parent_depth by fastforce
  have set_nxt: "set nxt = parent_trixel_name ` set prev" and dist_nxt: "distinct nxt"
    unfolding nxt_def using tl by simp_all
  have a1: "\<forall>c \<in> set prev. store (trixel_file pp c) \<noteq> None" using blobs by fastforce
  have a2: "\<forall>c \<in> set prev. \<forall>c' \<in> set prev.
           trixel_file pp (parent_trixel_name c) \<noteq> trixel_file pp c'"
  proof (intro ballI notI)
    fix c c' assume c: "c \<in> set prev" and c': "c' \<in> set prev"
      and e: "trixel_file pp (parent_trixel_name c) = trixel_file pp c'"
    have "parent_trixel_name c = c'"
      using pok c ok c' e by (blast intro: trixel_file_inj)
    then show False using pdepth c ok c' by fastforce
  qed
  define store' where "store' = (\<lambda>q. if q \<in> PF ` set prev
              then Some (rows_at store q @
                     concat (map (\<lambda>c. rows_at store (trixel_file pp c))
                                 (filter (\<lambda>c. PF c = q) prev)))
              else store q)"
  have res: "backfill_level pp prev store = Inr store'"
    unfolding store'_def PF_def by (rule backfill_level_result[OF a1 a2])
  have frame: "\<forall>q. store' q \<noteq> store q \<longrightarrow>
                 (\<exists>m. trixel_name_ok m \<and> name_depth m = k \<and> q = trixel_file pp m)"
  proof (intro allI impI)
    fix q assume "store' q \<noteq> store q"
    then have "q \<in> PF ` set prev" unfolding store'_def by (auto split: if_splits)
    then obtain c where "c \<in> set prev" "q = trixel_file pp (parent_trixel_name c)"
      unfolding PF_def by blast
    then show "\<exists>m. trixel_name_ok m \<and> name_depth m = k \<and> q = trixel_file pp m"
      using pok pdepth by blast
  qed
  have i2: "\<forall>n \<in> set nxt. trixel_name_ok n \<and> name_depth n = k"
    using set_nxt pok pdepth by auto
  have i3: "\<forall>s \<in> set saved. \<exists>n \<in> set nxt. descends_from s n"
  proof
    fix s assume "s \<in> set saved"
    then obtain c where c: "c \<in> set prev" "descends_from s c" using cover by blast
    then have "descends_from s (parent_trixel_name c)" using deep descends_parent by blast
    then show "\<exists>n \<in> set nxt. descends_from s n" using c(1) set_nxt by blast
  qed
  have i4: "\<forall>p \<in> set nxt. \<exists>rows. store' (trixel_file pp p) = Some rows
             \<and> mset rows = mset (leaf_rows pp store0 saved p)"
  proof
    fix p assume p: "p \<in> set nxt"
    then obtain c0 where c0: "c0 \<in> set prev" "p = parent_trixel_name c0"
      using set_nxt by blast
    have p_ok: "trixel_name_ok p" and p_depth: "name_depth p = k" using i2 p by blast+
    define cs where "cs = filter (\<lambda>c. parent_trixel_name c = p) prev"
    have cs_sub: "set cs \<subseteq> set prev" and cs_dist: "distinct cs"
      unfolding cs_def using dist by auto
    have "store (trixel_file pp p) = None" using none p_ok p_depth by simp
    then have empty: "rows_at store (trixel_file pp p) = []" by (simp add: rows_at_def)
    have filt: "filter (\<lambda>c. PF c = trixel_file pp p) prev = cs"
      unfolding cs_def PF_def
    proof (rule filter_cong[OF refl])
      fix c assume "c \<in> set prev"
      then have "trixel_name_ok (parent_trixel_name c)" using pok by blast
      then show "(trixel_file pp (parent_trixel_name c) = trixel_file pp p)
                   = (parent_trixel_name c = p)"
        using p_ok by (blast intro: trixel_file_inj)
    qed
    have inPF: "trixel_file pp p \<in> PF ` set prev" unfolding PF_def using c0 by blast
    define rows where "rows = concat (map (\<lambda>c. rows_at store (trixel_file pp c)) cs)"
    have st: "store' (trixel_file pp p) = Some rows"
      unfolding store'_def rows_def using inPF by (simp add: empty filt)
    have "mset rows = sum_list (map (\<lambda>c. mset (rows_at store (trixel_file pp c))) cs)"
      unfolding rows_def by (simp add: mset_concat comp_def)
    also have "\<dots> = sum_list (map (\<lambda>c. mset (leaf_rows pp store0 saved c)) cs)"
    proof (rule arg_cong[where f = sum_list], rule map_cong[OF refl])
      fix c assume "c \<in> set cs"
      then have "c \<in> set prev" using cs_sub by blast
      then obtain r where "store (trixel_file pp c) = Some r"
        "mset r = mset (leaf_rows pp store0 saved c)" using blobs by blast
      then show "mset (rows_at store (trixel_file pp c)) = mset (leaf_rows pp store0 saved c)"
        by (simp add: rows_at_def)
    qed
    also have "\<dots> = sum_list (map (\<lambda>c. sum_list (map h (filter (\<lambda>s. descends_from s c) saved))) cs)"
      unfolding h_def mset_leaf_rows ..
    also have "\<dots> = sum_list (map h (filter (\<lambda>s. descends_from s p) saved))"
    proof (rule sum_list_regroup[OF cs_dist])
      show "\<forall>s \<in> set saved. \<forall>c \<in> set cs. \<forall>c' \<in> set cs.
              descends_from s c \<and> descends_from s c' \<longrightarrow> c = c'"
      proof (intro ballI impI)
        fix s c c' assume "c \<in> set cs" "c' \<in> set cs" "descends_from s c \<and> descends_from s c'"
        moreover have "name_depth c = name_depth c'"
          using ok cs_sub \<open>c \<in> set cs\<close> \<open>c' \<in> set cs\<close> by (metis subsetD)
        ultimately show "c = c'" using descends_same_depth by blast
      qed
      show "\<forall>s \<in> set saved. descends_from s p = (\<exists>c \<in> set cs. descends_from s c)"
      proof (intro ballI iffI)
        fix s assume s: "s \<in> set saved" and d: "descends_from s p"
        from cover s obtain c where c: "c \<in> set prev" "descends_from s c" by blast
        have c2: "2 \<le> name_depth c" using deep c(1) by blast
        have pc: "name_depth p = name_depth c - 1" using p_depth ok c(1) by simp
        have "parent_trixel_name c = p" by (rule descends_to_parent[OF c2 c(2) d pc])
        then have "c \<in> set cs" unfolding cs_def using c(1) by simp
        then show "\<exists>c \<in> set cs. descends_from s c" using c(2) by blast
      next
        fix s assume "\<exists>c \<in> set cs. descends_from s c"
        then obtain c where c: "c \<in> set cs" "descends_from s c" by blast
        then have "parent_trixel_name c = p" "2 \<le> name_depth c"
          unfolding cs_def using deep by auto
        then show "descends_from s p" using descends_parent c(2) by blast
      qed
    qed
    also have "\<dots> = mset (leaf_rows pp store0 saved p)"
      unfolding h_def mset_leaf_rows ..
    finally show "\<exists>rows. store' (trixel_file pp p) = Some rows
             \<and> mset rows = mset (leaf_rows pp store0 saved p)" using st by blast
  qed
  have i5: "\<forall>m. trixel_name_ok m \<and> name_depth m < k \<longrightarrow> store' (trixel_file pp m) = None"
  proof (intro allI impI)
    fix m assume m: "trixel_name_ok m \<and> name_depth m < k"
    have "store' (trixel_file pp m) = store (trixel_file pp m)"
    proof (rule ccontr)
      assume "store' (trixel_file pp m) \<noteq> store (trixel_file pp m)"
      then obtain m' where m': "trixel_name_ok m'" "name_depth m' = k"
        "trixel_file pp m = trixel_file pp m'" using frame by blast
      then have "m = m'" using m by (blast intro: trixel_file_inj)
      then show False using m m'(2) by simp
    qed
    then show "store' (trixel_file pp m) = None" using none m by simp
  qed
  have i6: "\<forall>n \<in> set nxt. \<exists>s \<in> set saved. descends_from s n"
  proof
    fix n assume "n \<in> set nxt"
    then obtain c where c: "c \<in> set prev" "n = parent_trixel_name c" using set_nxt by blast
    then obtain s where s: "s \<in> set saved" "descends_from s c" using leafs by blast
    have "2 \<le> name_depth c" using deep c(1) by blast
    then have "descends_from s n" unfolding c(2) using s(2) by (rule descends_parent)
    then show "\<exists>s \<in> set saved. descends_from s n" using s(1) by blast
  qed
  have written: "\<forall>q. store' q \<noteq> store q \<longrightarrow> q \<in> trixel_file pp ` set nxt"
  proof (intro allI impI)
    fix q assume "store' q \<noteq> store q"
    then have "q \<in> PF ` set prev" unfolding store'_def by (auto split: if_splits)
    then show "q \<in> trixel_file pp ` set nxt" unfolding PF_def set_nxt by blast
  qed
  have "level_ok pp store0 saved k nxt store'"
    unfolding level_ok_def using dist_nxt i2 i3 i4 i5 i6 by blast
  then show ?thesis using res frame written unfolding nxt_def by blast
qed

subsection \<open>All levels\<close>

lemma backfill_depths_result:
  assumes tl: "\<forall>xs. set (to_list xs) = set xs \<and> distinct (to_list xs)"
    and lo: "1 \<le> lo"
    and inv: "level_ok pp store0 saved k prev store"
  shows "\<exists>store' tbd'.
      backfill_depths to_list pp (rev [lo..k - 1]) prev store tbd = Inr (store', tbd')
      \<and> (\<forall>d. d \<notin> set [lo..k - 1] \<longrightarrow> tbd' d = tbd d)
      \<and> (\<forall>d \<in> set [lo..k - 1]. \<exists>names store_d. tbd' d = Some names
            \<and> level_ok pp store0 saved d names store_d
            \<and> (\<forall>n \<in> set names. store' (trixel_file pp n) = store_d (trixel_file pp n)))
      \<and> (\<forall>q. store' q \<noteq> store q \<longrightarrow>
            (\<exists>m. trixel_name_ok m \<and> name_depth m < k \<and> q = trixel_file pp m))
      \<and> (\<forall>q. store' q \<noteq> store q \<longrightarrow>
            (\<exists>d \<in> set [lo..k - 1]. \<exists>names. tbd' d = Some names
               \<and> q \<in> trixel_file pp ` set names))"
  using inv
proof (induction "nat (k - lo)" arbitrary: k prev store tbd)
  case 0
  then have "[lo..k - 1] = []" by simp
  then show ?case by simp
next
  case (Suc j)
  then have k1: "lo \<le> k - 1" and j: "j = nat ((k - 1) - lo)" by simp_all
  have k1pos: "1 \<le> k - 1" using lo k1 by simp
  have up: "[lo..k - 1] = [lo..k - 1 - 1] @ [k - 1]" using k1 by (rule upto_rec2)
  define nxt where "nxt = to_list (map parent_trixel_name prev)"
  have "level_ok pp store0 saved ((k - 1) + 1) prev store" using Suc.prems by simp
  from backfill_level_step[OF tl k1pos this]
  obtain store1 where l: "backfill_level pp prev store = Inr store1"
    and inv1: "level_ok pp store0 saved (k - 1) nxt store1"
    and frame1: "\<forall>q. store1 q \<noteq> store q \<longrightarrow>
                 (\<exists>m. trixel_name_ok m \<and> name_depth m = k - 1 \<and> q = trixel_file pp m)"
    and written1: "\<forall>q. store1 q \<noteq> store q \<longrightarrow> q \<in> trixel_file pp ` set nxt"
    unfolding nxt_def by blast
  from Suc.hyps(1)[OF j inv1, of "tbd(k - 1 \<mapsto> nxt)"]
  obtain store' tbd' where
    r: "backfill_depths to_list pp (rev [lo..k - 1 - 1]) nxt store1 (tbd(k - 1 \<mapsto> nxt))
          = Inr (store', tbd')"
    and keep: "\<forall>d. d \<notin> set [lo..k - 1 - 1] \<longrightarrow> tbd' d = (tbd(k - 1 \<mapsto> nxt)) d"
    and below: "\<forall>d \<in> set [lo..k - 1 - 1]. \<exists>names store_d. tbd' d = Some names
            \<and> level_ok pp store0 saved d names store_d
            \<and> (\<forall>n \<in> set names. store' (trixel_file pp n) = store_d (trixel_file pp n))"
    and frame2: "\<forall>q. store' q \<noteq> store1 q \<longrightarrow>
            (\<exists>m. trixel_name_ok m \<and> name_depth m < k - 1 \<and> q = trixel_file pp m)"
    and written2: "\<forall>q. store' q \<noteq> store1 q \<longrightarrow>
            (\<exists>d \<in> set [lo..k - 1 - 1]. \<exists>names. tbd' d = Some names
               \<and> q \<in> trixel_file pp ` set names)"
    by blast
  have run: "backfill_depths to_list pp (rev [lo..k - 1]) prev store tbd = Inr (store', tbd')"
    unfolding up using r by (simp add: l nxt_def)
  have keep': "\<forall>d. d \<notin> set [lo..k - 1] \<longrightarrow> tbd' d = tbd d"
    using keep k1 by auto
  have here: "tbd' (k - 1) = Some nxt" using keep by simp
  have sub: "\<And>d. d \<in> set [lo..k - 1 - 1] \<Longrightarrow> d \<in> set [lo..k - 1]" by simp
  have top: "k - 1 \<in> set [lo..k - 1]" using k1 by simp
  have nxt_same: "\<forall>n \<in> set nxt. store' (trixel_file pp n) = store1 (trixel_file pp n)"
  proof
    fix n assume n: "n \<in> set nxt"
    from inv1 n have okn: "trixel_name_ok n" "name_depth n = k - 1"
      unfolding level_ok_def by blast+
    show "store' (trixel_file pp n) = store1 (trixel_file pp n)"
    proof (rule ccontr)
      assume "store' (trixel_file pp n) \<noteq> store1 (trixel_file pp n)"
      then obtain m where m: "trixel_name_ok m" "name_depth m < k - 1"
        "trixel_file pp n = trixel_file pp m" using frame2 by blast
      then have "n = m" using okn(1) by (blast intro: trixel_file_inj)
      then show False using m(2) okn(2) by simp
    qed
  qed
  have all: "\<forall>d \<in> set [lo..k - 1]. \<exists>names store_d. tbd' d = Some names
            \<and> level_ok pp store0 saved d names store_d
            \<and> (\<forall>n \<in> set names. store' (trixel_file pp n) = store_d (trixel_file pp n))"
  proof
    fix d assume "d \<in> set [lo..k - 1]"
    then have "d = k - 1 \<or> d \<in> set [lo..k - 1 - 1]" by simp arith
    then consider "d = k - 1" | "d \<in> set [lo..k - 1 - 1]" by blast
    then show "\<exists>names store_d. tbd' d = Some names
            \<and> level_ok pp store0 saved d names store_d
            \<and> (\<forall>n \<in> set names. store' (trixel_file pp n) = store_d (trixel_file pp n))"
    proof cases
      case 1
      then show ?thesis using here inv1 nxt_same by blast
    next
      case 2
      then show ?thesis using below by blast
    qed
  qed
  have frame: "\<forall>q. store' q \<noteq> store q \<longrightarrow>
            (\<exists>m. trixel_name_ok m \<and> name_depth m < k \<and> q = trixel_file pp m)"
  proof (intro allI impI)
    fix q assume "store' q \<noteq> store q"
    then consider "store' q \<noteq> store1 q" | "store1 q \<noteq> store q" by fastforce
    then show "\<exists>m. trixel_name_ok m \<and> name_depth m < k \<and> q = trixel_file pp m"
    proof cases
      case 1
      then obtain m where "trixel_name_ok m" "name_depth m < k - 1" "q = trixel_file pp m"
        using frame2 by blast
      then show ?thesis by force
    next
      case 2
      then obtain m where "trixel_name_ok m" "name_depth m = k - 1" "q = trixel_file pp m"
        using frame1 by blast
      then show ?thesis by force
    qed
  qed
  have written: "\<forall>q. store' q \<noteq> store q \<longrightarrow>
            (\<exists>d \<in> set [lo..k - 1]. \<exists>names. tbd' d = Some names
               \<and> q \<in> trixel_file pp ` set names)"
  proof (intro allI impI)
    fix q assume "store' q \<noteq> store q"
    then consider "store' q \<noteq> store1 q" | "store1 q \<noteq> store q" by fastforce
    then show "\<exists>d \<in> set [lo..k - 1]. \<exists>names. tbd' d = Some names
               \<and> q \<in> trixel_file pp ` set names"
    proof cases
      case 1
      then obtain d names where "d \<in> set [lo..k - 1 - 1]" "tbd' d = Some names"
        "q \<in> trixel_file pp ` set names" using written2 by blast
      then show ?thesis using sub by blast
    next
      case 2
      then have "q \<in> trixel_file pp ` set nxt" using written1 by blast
      then show ?thesis using here top by blast
    qed
  qed
  from run keep' all frame written show ?case by blast
qed

lemma filter_eq_distinct: "distinct xs \<Longrightarrow> x \<in> set xs \<Longrightarrow> filter (\<lambda>y. y = x) xs = [x]"
  by (induction xs) (auto simp: filter_empty_conv)

text \<open>
  The backfill from any depth \<open>D\<close> of the saved leaves. The mapping it returns has the
  saved names at depth \<open>D\<close> and, at every depth from INGEST_MIN_DEPTH to \<open>D - 1\<close>, each
  once, exactly the names of that depth with a saved leaf below them; the blob of each
  holds the rows of the saved leaves below it; no other depth is recorded, and no blob
  but those of the recorded parents is written.
\<close>

lemma backfill_any_depth:
  assumes tl: "\<forall>xs. set (to_list xs) = set xs \<and> distinct (to_list xs)"
    and ne: "saved \<noteq> []" and dist: "distinct saved"
    and names: "\<forall>s \<in> set saved. trixel_name_ok s \<and> name_depth s = D"
    and dom: "dom store = trixel_file pp ` set saved"
  shows "\<exists>store' by_depth. backfill_trixels to_list pp saved store = Inr (store', by_depth)
     \<and> by_depth D = Some saved
     \<and> (\<forall>d. d \<notin> {INGEST_MIN_DEPTH..D - 1} \<and> d \<noteq> D \<longrightarrow> by_depth d = None)
     \<and> (\<forall>s \<in> set saved. store' (trixel_file pp s) = store (trixel_file pp s))
     \<and> (\<forall>q. store' q \<noteq> store q \<longrightarrow>
           (\<exists>d \<in> {INGEST_MIN_DEPTH..D - 1}. \<exists>ns. by_depth d = Some ns
              \<and> q \<in> trixel_file pp ` set ns))
     \<and> (\<forall>d \<in> {INGEST_MIN_DEPTH..D - 1}. \<exists>ns. by_depth d = Some ns
          \<and> ns \<noteq> [] \<and> distinct ns
          \<and> set ns = {n. name_depth n = d \<and> (\<exists>s \<in> set saved. descends_from s n)}
          \<and> (\<forall>n \<in> set ns. \<exists>rows. store' (trixel_file pp n) = Some rows
                \<and> mset rows = mset (leaf_rows pp store' saved n)))"
proof -
  obtain first others where saved: "saved = first # others" using ne by (cases saved) auto
  have depth_first: "int (count_dash first) + 1 = D"
    using names saved by (simp add: count_dash_depth)
  have same: "list_all (\<lambda>trixel. int (count_dash trixel) + 1 = D) saved"
    using names by (simp add: list_all_iff count_dash_depth)
  have cd: "int (count_dash first) = D - 1" using depth_first by simp
  have unfold: "backfill_trixels to_list pp saved store =
      backfill_depths to_list pp (rev [INGEST_MIN_DEPTH..D - 1]) saved store [D \<mapsto> saved]"
    using same unfolding backfill_trixels_def saved Let_def range_down_def
    by (simp add: cd)
  have blobs: "\<forall>s \<in> set saved. \<exists>rows. store (trixel_file pp s) = Some rows
                 \<and> mset rows = mset (leaf_rows pp store saved s)"
  proof
    fix s assume s: "s \<in> set saved"
    then have "trixel_file pp s \<in> dom store" using dom by blast
    then obtain rows where rows: "store (trixel_file pp s) = Some rows" by blast
    have "filter (\<lambda>leaf. descends_from leaf s) saved = filter (\<lambda>leaf. leaf = s) saved"
    proof (rule filter_cong[OF refl])
      fix leaf assume "leaf \<in> set saved"
      then have "name_depth leaf = name_depth s" using names s by simp
      then show "descends_from leaf s = (leaf = s)"
        using descends_same_depth[OF descends_refl, of leaf s] descends_refl by blast
    qed
    then have "filter (\<lambda>leaf. descends_from leaf s) saved = [s]"
      using filter_eq_distinct[OF dist s] by simp
    then have "leaf_rows pp store saved s = rows"
      by (simp add: leaf_rows_def rows_at_def rows)
    then show "\<exists>rows. store (trixel_file pp s) = Some rows
                 \<and> mset rows = mset (leaf_rows pp store saved s)" using rows by simp
  qed
  have none: "\<forall>m. trixel_name_ok m \<and> name_depth m < D \<longrightarrow> store (trixel_file pp m) = None"
  proof (intro allI impI)
    fix m assume m: "trixel_name_ok m \<and> name_depth m < D"
    show "store (trixel_file pp m) = None"
    proof (rule ccontr)
      assume "store (trixel_file pp m) \<noteq> None"
      then have "trixel_file pp m \<in> trixel_file pp ` set saved" using dom by blast
      then obtain s where s: "s \<in> set saved" "trixel_file pp m = trixel_file pp s" by blast
      then have "m = s" using m names by (blast intro: trixel_file_inj)
      then show False using m names s(1) by auto
    qed
  qed
  have inv: "level_ok pp store saved D saved store"
    unfolding level_ok_def using dist names blobs none descends_refl by blast
  have lo: "1 \<le> INGEST_MIN_DEPTH" by (simp add: INGEST_MIN_DEPTH_def)
  from backfill_depths_result[OF tl lo inv, of "[D \<mapsto> saved]"]
  obtain store' tbd' where
    run: "backfill_depths to_list pp (rev [INGEST_MIN_DEPTH..D - 1]) saved store [D \<mapsto> saved]
            = Inr (store', tbd')"
    and keep: "\<forall>d. d \<notin> set [INGEST_MIN_DEPTH..D - 1] \<longrightarrow> tbd' d = [D \<mapsto> saved] d"
    and all: "\<forall>d \<in> set [INGEST_MIN_DEPTH..D - 1]. \<exists>ns store_d. tbd' d = Some ns
            \<and> level_ok pp store saved d ns store_d
            \<and> (\<forall>n \<in> set ns. store' (trixel_file pp n) = store_d (trixel_file pp n))"
    and frame: "\<forall>q. store' q \<noteq> store q \<longrightarrow>
            (\<exists>m. trixel_name_ok m \<and> name_depth m < D \<and> q = trixel_file pp m)"
    and written: "\<forall>q. store' q \<noteq> store q \<longrightarrow>
            (\<exists>d \<in> set [INGEST_MIN_DEPTH..D - 1]. \<exists>ns. tbd' d = Some ns
               \<and> q \<in> trixel_file pp ` set ns)"
    by blast
  have at_D: "tbd' D = Some saved" using keep by simp
  have outside: "\<forall>d. d \<notin> {INGEST_MIN_DEPTH..D - 1} \<and> d \<noteq> D \<longrightarrow> tbd' d = None"
    using keep by simp
  have written': "\<forall>q. store' q \<noteq> store q \<longrightarrow>
           (\<exists>d \<in> {INGEST_MIN_DEPTH..D - 1}. \<exists>ns. tbd' d = Some ns
              \<and> q \<in> trixel_file pp ` set ns)"
    using written by simp
  have leaves: "\<forall>s \<in> set saved. store' (trixel_file pp s) = store (trixel_file pp s)"
  proof
    fix s assume s: "s \<in> set saved"
    show "store' (trixel_file pp s) = store (trixel_file pp s)"
    proof (rule ccontr)
      assume "store' (trixel_file pp s) \<noteq> store (trixel_file pp s)"
      then obtain m where m: "trixel_name_ok m" "name_depth m < D"
        "trixel_file pp s = trixel_file pp m" using frame by blast
      then have "s = m" using names s by (blast intro: trixel_file_inj)
      then show False using m(2) names s by auto
    qed
  qed
  have rows_eq: "\<And>n. leaf_rows pp store' saved n = leaf_rows pp store saved n"
    unfolding leaf_rows_def
    by (rule arg_cong[where f = concat], rule map_cong[OF refl]) (simp add: rows_at_def leaves)
  have levels: "\<forall>d \<in> {INGEST_MIN_DEPTH..D - 1}. \<exists>ns. tbd' d = Some ns
          \<and> ns \<noteq> [] \<and> distinct ns
          \<and> set ns = {n. name_depth n = d \<and> (\<exists>s \<in> set saved. descends_from s n)}
          \<and> (\<forall>n \<in> set ns. \<exists>rows. store' (trixel_file pp n) = Some rows
                \<and> mset rows = mset (leaf_rows pp store' saved n))"
  proof
    fix d assume "d \<in> {INGEST_MIN_DEPTH..D - 1}"
    then have "d \<in> set [INGEST_MIN_DEPTH..D - 1]" by simp
    then obtain ns store_d where ns: "tbd' d = Some ns"
      and lv: "level_ok pp store saved d ns store_d"
      and eq: "\<forall>n \<in> set ns. store' (trixel_file pp n) = store_d (trixel_file pp n)"
      using all by blast
    from lv have dist_ns: "distinct ns"
      and ok: "\<forall>n \<in> set ns. trixel_name_ok n \<and> name_depth n = d"
      and cover: "\<forall>s \<in> set saved. \<exists>n \<in> set ns. descends_from s n"
      and blob: "\<forall>n \<in> set ns. \<exists>rows. store_d (trixel_file pp n) = Some rows
             \<and> mset rows = mset (leaf_rows pp store saved n)"
      and leafs: "\<forall>n \<in> set ns. \<exists>s \<in> set saved. descends_from s n"
      unfolding level_ok_def by blast+
    have "first \<in> set saved" by (simp add: saved)
    then have nonempty: "ns \<noteq> []" using cover by fastforce
    have exact: "set ns = {n. name_depth n = d \<and> (\<exists>s \<in> set saved. descends_from s n)}"
    proof (intro set_eqI iffI)
      fix n assume "n \<in> set ns"
      then show "n \<in> {n. name_depth n = d \<and> (\<exists>s \<in> set saved. descends_from s n)}"
        using ok leafs by blast
    next
      fix n assume "n \<in> {n. name_depth n = d \<and> (\<exists>s \<in> set saved. descends_from s n)}"
      then obtain s where nd: "name_depth n = d" and s: "s \<in> set saved" "descends_from s n"
        by blast
      from cover s(1) obtain n' where n': "n' \<in> set ns" "descends_from s n'" by blast
      have "name_depth n = name_depth n'" using nd ok n'(1) by simp
      with s(2) n'(2) have "n = n'" by (rule descends_same_depth)
      then show "n \<in> set ns" using n'(1) by simp
    qed
    have rows: "\<forall>n \<in> set ns. \<exists>rows. store' (trixel_file pp n) = Some rows
                \<and> mset rows = mset (leaf_rows pp store' saved n)"
      unfolding rows_eq using blob eq by fastforce
    from ns nonempty dist_ns exact rows
    show "\<exists>ns. tbd' d = Some ns
          \<and> ns \<noteq> [] \<and> distinct ns
          \<and> set ns = {n. name_depth n = d \<and> (\<exists>s \<in> set saved. descends_from s n)}
          \<and> (\<forall>n \<in> set ns. \<exists>rows. store' (trixel_file pp n) = Some rows
                \<and> mset rows = mset (leaf_rows pp store' saved n))" by blast
  qed
  from run at_D outside leaves written' levels show ?thesis unfolding unfold by blast
qed

text \<open>
  Claim C2. If backfill_trixels runs on a blob store in which exactly the saved leaf
  trixel names, all of depth INGEST_MAX_DEPTH = 20, have blobs, then it returns, and for
  every depth d from INGEST_MIN_DEPTH = 10 to 19 and every trixel name recorded at depth d
  in the returned mapping, the multiset of the rows of that trixel's blob is the union of
  the multisets of the rows of the blobs of its saved descendants of depth 20. The names
  recorded at depth d are, each once, exactly the names of depth d with a saved leaf
  below them, so there is at least one and every saved leaf is below one of them. The
  mapping has the saved names at depth 20 and no depth outside 10 to 20. The blobs of the
  leaves are left as they were, and no blob but those of the recorded parents is written.
  This holds for every order in which Python lists the set of the parents.
\<close>

theorem backfill_concatenation:
  assumes "\<forall>xs. set (to_list xs) = set xs \<and> distinct (to_list xs)"
    and "saved \<noteq> []" and "distinct saved"
    and "\<forall>s \<in> set saved. trixel_name_ok s \<and> name_depth s = INGEST_MAX_DEPTH"
    and "dom store = trixel_file pp ` set saved"
  shows "\<exists>store' by_depth. backfill_trixels to_list pp saved store = Inr (store', by_depth)
     \<and> by_depth INGEST_MAX_DEPTH = Some saved
     \<and> (\<forall>d. d \<notin> {INGEST_MIN_DEPTH..INGEST_MAX_DEPTH - 1} \<and> d \<noteq> INGEST_MAX_DEPTH \<longrightarrow>
           by_depth d = None)
     \<and> (\<forall>s \<in> set saved. store' (trixel_file pp s) = store (trixel_file pp s))
     \<and> (\<forall>q. store' q \<noteq> store q \<longrightarrow>
           (\<exists>d \<in> {INGEST_MIN_DEPTH..INGEST_MAX_DEPTH - 1}. \<exists>ns. by_depth d = Some ns
              \<and> q \<in> trixel_file pp ` set ns))
     \<and> (\<forall>d \<in> {INGEST_MIN_DEPTH..INGEST_MAX_DEPTH - 1}. \<exists>ns. by_depth d = Some ns
          \<and> ns \<noteq> [] \<and> distinct ns
          \<and> set ns = {n. name_depth n = d \<and> (\<exists>s \<in> set saved. descends_from s n)}
          \<and> (\<forall>n \<in> set ns. \<exists>rows. store' (trixel_file pp n) = Some rows
                \<and> mset rows = mset (leaf_rows pp store' saved n)))"
  using assms by (rule backfill_any_depth)

lemma distinct_singleton: "distinct ns \<Longrightarrow> set ns = {x} \<Longrightarrow> ns = [x]"
  by (cases ns) (auto simp: subset_singleton_iff)

text \<open>Two saved leaves with the same parent, each with one row.\<close>

lemma leaf_a_ok:
  "trixel_name_ok ''N0-0-1-2-3-0-1-2-3-0-1-2-3-0-1-2-3-0-1-2''"
  "name_depth ''N0-0-1-2-3-0-1-2-3-0-1-2-3-0-1-2-3-0-1-2'' = INGEST_MAX_DEPTH"
  by (simp_all add: trixel_name_ok_def name_depth_def INGEST_MAX_DEPTH_def octahedron_def)

lemma leaf_b_ok:
  "trixel_name_ok ''N0-0-1-2-3-0-1-2-3-0-1-2-3-0-1-2-3-0-1-3''"
  "name_depth ''N0-0-1-2-3-0-1-2-3-0-1-2-3-0-1-2-3-0-1-3'' = INGEST_MAX_DEPTH"
  by (simp_all add: trixel_name_ok_def name_depth_def INGEST_MAX_DEPTH_def octahedron_def)

lemma leaf_parent:
  "name_depth ''N0-0-1-2-3-0-1-2-3-0-1-2-3-0-1-2-3-0-1'' = 19"
  "descends_from ''N0-0-1-2-3-0-1-2-3-0-1-2-3-0-1-2-3-0-1-2''
                 ''N0-0-1-2-3-0-1-2-3-0-1-2-3-0-1-2-3-0-1''"
  "descends_from ''N0-0-1-2-3-0-1-2-3-0-1-2-3-0-1-2-3-0-1-3''
                 ''N0-0-1-2-3-0-1-2-3-0-1-2-3-0-1-2-3-0-1''"
  by (simp_all add: name_depth_def descends_from_def)

lemma leaf_files:
  "trixel_file ''processed/d'' ''N0-0-1-2-3-0-1-2-3-0-1-2-3-0-1-2-3-0-1-2''
     = ''processed/d/N0/0/1/2/3/0/1/2/3/0/1/2/3/0/1/2/3/0/1/2/data.npy''"
  "trixel_file ''processed/d'' ''N0-0-1-2-3-0-1-2-3-0-1-2-3-0-1-2-3-0-1-3''
     = ''processed/d/N0/0/1/2/3/0/1/2/3/0/1/2/3/0/1/2/3/0/1/3/data.npy''"
  "trixel_file ''processed/d'' ''N0-0-1-2-3-0-1-2-3-0-1-2-3-0-1-2-3-0-1''
     = ''processed/d/N0/0/1/2/3/0/1/2/3/0/1/2/3/0/1/2/3/0/1/data.npy''"
  by (simp_all add: trixel_file_formula leaf_a_ok leaf_b_ok trixel_name_ok_def octahedron_def)

theorem backfill_concatenation_witness:
  "(\<forall>xs::string list. set (remdups xs) = set xs \<and> distinct (remdups xs))
   \<and> distinct [''N0-0-1-2-3-0-1-2-3-0-1-2-3-0-1-2-3-0-1-2'',
                ''N0-0-1-2-3-0-1-2-3-0-1-2-3-0-1-2-3-0-1-3'']
   \<and> trixel_name_ok ''N0-0-1-2-3-0-1-2-3-0-1-2-3-0-1-2-3-0-1-2''
   \<and> name_depth ''N0-0-1-2-3-0-1-2-3-0-1-2-3-0-1-2-3-0-1-2'' = INGEST_MAX_DEPTH
   \<and> trixel_name_ok ''N0-0-1-2-3-0-1-2-3-0-1-2-3-0-1-2-3-0-1-3''
   \<and> name_depth ''N0-0-1-2-3-0-1-2-3-0-1-2-3-0-1-2-3-0-1-3'' = INGEST_MAX_DEPTH
   \<and> (\<exists>store' by_depth.
        backfill_trixels remdups ''processed/d''
          [''N0-0-1-2-3-0-1-2-3-0-1-2-3-0-1-2-3-0-1-2'',
           ''N0-0-1-2-3-0-1-2-3-0-1-2-3-0-1-2-3-0-1-3'']
          [''processed/d/N0/0/1/2/3/0/1/2/3/0/1/2/3/0/1/2/3/0/1/2/data.npy''
             \<mapsto> [[47, 8, 100, 1, 2, 3]],
           ''processed/d/N0/0/1/2/3/0/1/2/3/0/1/2/3/0/1/2/3/0/1/3/data.npy''
             \<mapsto> [[47, 9, 100, 4, 5, 6]]]
          = Inr (store', by_depth)
        \<and> by_depth 20 = Some [''N0-0-1-2-3-0-1-2-3-0-1-2-3-0-1-2-3-0-1-2'',
                               ''N0-0-1-2-3-0-1-2-3-0-1-2-3-0-1-2-3-0-1-3'']
        \<and> by_depth 19 = Some [''N0-0-1-2-3-0-1-2-3-0-1-2-3-0-1-2-3-0-1'']
        \<and> by_depth 21 = None \<and> by_depth 9 = None
        \<and> store' ''processed/d/N0/0/1/2/3/0/1/2/3/0/1/2/3/0/1/2/3/0/1/2/data.npy''
             = Some [[47, 8, 100, 1, 2, 3]]
        \<and> store' ''processed/d/N0/0/1/2/3/0/1/2/3/0/1/2/3/0/1/2/3/0/1/3/data.npy''
             = Some [[47, 9, 100, 4, 5, 6]]
        \<and> (\<exists>rows. store' ''processed/d/N0/0/1/2/3/0/1/2/3/0/1/2/3/0/1/2/3/0/1/data.npy''
                      = Some rows
              \<and> mset rows = {#[47, 8, 100, 1, 2, 3], [47, 9, 100, 4, 5, 6]#}))"
proof -
  let ?a = "''N0-0-1-2-3-0-1-2-3-0-1-2-3-0-1-2-3-0-1-2''"
  let ?b = "''N0-0-1-2-3-0-1-2-3-0-1-2-3-0-1-2-3-0-1-3''"
  let ?p = "''N0-0-1-2-3-0-1-2-3-0-1-2-3-0-1-2-3-0-1''"
  let ?fa = "''processed/d/N0/0/1/2/3/0/1/2/3/0/1/2/3/0/1/2/3/0/1/2/data.npy''"
  let ?fb = "''processed/d/N0/0/1/2/3/0/1/2/3/0/1/2/3/0/1/2/3/0/1/3/data.npy''"
  let ?fp = "''processed/d/N0/0/1/2/3/0/1/2/3/0/1/2/3/0/1/2/3/0/1/data.npy''"
  let ?store = "[?fa \<mapsto> [[47, 8, 100, 1, 2, 3 :: real]], ?fb \<mapsto> [[47, 9, 100, 4, 5, 6]]]"
  have h1: "\<forall>xs::string list. set (remdups xs) = set xs \<and> distinct (remdups xs)" by simp
  have h2: "[?a, ?b] \<noteq> []" by simp
  have h3: "distinct [?a, ?b]" by simp
  have h4: "\<forall>s \<in> set [?a, ?b]. trixel_name_ok s \<and> name_depth s = INGEST_MAX_DEPTH"
    using leaf_a_ok leaf_b_ok by simp
  have h5: "dom ?store = trixel_file ''processed/d'' ` set [?a, ?b]"
    by (simp add: leaf_files insert_commute)
  from backfill_concatenation[OF h1 h2 h3 h4 h5]
  obtain store' by_depth where
    run: "backfill_trixels remdups ''processed/d'' [?a, ?b] ?store = Inr (store', by_depth)"
    and top: "by_depth INGEST_MAX_DEPTH = Some [?a, ?b]"
    and outside: "\<forall>d. d \<notin> {INGEST_MIN_DEPTH..INGEST_MAX_DEPTH - 1} \<and> d \<noteq> INGEST_MAX_DEPTH \<longrightarrow>
           by_depth d = None"
    and leaves: "\<forall>s \<in> set [?a, ?b]. store' (trixel_file ''processed/d'' s)
                    = ?store (trixel_file ''processed/d'' s)"
    and levels: "\<forall>d \<in> {INGEST_MIN_DEPTH..INGEST_MAX_DEPTH - 1}. \<exists>ns. by_depth d = Some ns
          \<and> ns \<noteq> [] \<and> distinct ns
          \<and> set ns = {n. name_depth n = d \<and> (\<exists>s \<in> set [?a, ?b]. descends_from s n)}
          \<and> (\<forall>n \<in> set ns. \<exists>rows. store' (trixel_file ''processed/d'' n) = Some rows
                \<and> mset rows = mset (leaf_rows ''processed/d'' store' [?a, ?b] n))"
    by blast
  have d: "(19::int) \<in> {INGEST_MIN_DEPTH..INGEST_MAX_DEPTH - 1}"
    by (simp add: INGEST_MIN_DEPTH_def INGEST_MAX_DEPTH_def)
  then obtain ns where ns: "by_depth 19 = Some ns" and dist: "distinct ns"
    and exact: "set ns = {n. name_depth n = 19 \<and> (\<exists>s \<in> set [?a, ?b]. descends_from s n)}"
    and rows: "\<forall>n \<in> set ns. \<exists>rows. store' (trixel_file ''processed/d'' n) = Some rows
                \<and> mset rows = mset (leaf_rows ''processed/d'' store' [?a, ?b] n)"
    using levels by blast
  have sa: "store' ?fa = Some [[47, 8, 100, 1, 2, 3]]"
    using leaves by (simp add: leaf_files)
  have sb: "store' ?fb = Some [[47, 9, 100, 4, 5, 6]]"
    using leaves by (simp add: leaf_files)
  have "{n. name_depth n = 19 \<and> (\<exists>s \<in> set [?a, ?b]. descends_from s n)} = {?p}"
  proof (intro set_eqI iffI)
    fix n assume "n \<in> {n. name_depth n = 19 \<and> (\<exists>s \<in> set [?a, ?b]. descends_from s n)}"
    then have nd: "name_depth n = name_depth ?p"
      and "descends_from ?a n \<or> descends_from ?b n" using leaf_parent(1) by auto
    then consider "descends_from ?a n" | "descends_from ?b n" by blast
    then have "n = ?p"
    proof cases
      case 1
      from this leaf_parent(2) nd show ?thesis by (rule descends_same_depth)
    next
      case 2
      from this leaf_parent(3) nd show ?thesis by (rule descends_same_depth)
    qed
    then show "n \<in> {?p}" by simp
  next
    fix n assume "n \<in> {?p}"
    then have "n = ?p" by simp
    then show "n \<in> {n. name_depth n = 19 \<and> (\<exists>s \<in> set [?a, ?b]. descends_from s n)}"
      using leaf_parent by simp
  qed
  then have "set ns = {?p}" using exact by simp
  with dist have nsp: "ns = [?p]" by (rule distinct_singleton)
  have lr: "leaf_rows ''processed/d'' store' [?a, ?b] ?p
              = [[47, 8, 100, 1, 2, 3], [47, 9, 100, 4, 5, 6]]"
    unfolding leaf_rows_def by (simp add: leaf_parent leaf_files rows_at_def sa sb)
  have sp: "\<exists>rows. store' ?fp = Some rows
              \<and> mset rows = {#[47, 8, 100, 1, 2, 3], [47, 9, 100, 4, 5, 6]#}"
    using rows unfolding nsp by (simp add: leaf_files lr)
  have t20: "by_depth 20 = Some [?a, ?b]" using top by (simp add: INGEST_MAX_DEPTH_def)
  have t19: "by_depth 19 = Some [?p]" using ns nsp by simp
  have t21: "by_depth 21 = None" and t9: "by_depth 9 = None"
    using outside by (simp_all add: INGEST_MIN_DEPTH_def INGEST_MAX_DEPTH_def)
  from run t20 t19 t21 t9 sa sb sp
  have "\<exists>store' by_depth.
        backfill_trixels remdups ''processed/d'' [?a, ?b] ?store = Inr (store', by_depth)
        \<and> by_depth 20 = Some [?a, ?b]
        \<and> by_depth 19 = Some [?p]
        \<and> by_depth 21 = None \<and> by_depth 9 = None
        \<and> store' ?fa = Some [[47, 8, 100, 1, 2, 3]]
        \<and> store' ?fb = Some [[47, 9, 100, 4, 5, 6]]
        \<and> (\<exists>rows. store' ?fp = Some rows
              \<and> mset rows = {#[47, 8, 100, 1, 2, 3], [47, 9, 100, 4, 5, 6]#})"
    by blast
  with h1 h3 leaf_a_ok leaf_b_ok show ?thesis by blast
qed

section \<open>The exit status of the ingest command\<close>

text \<open>
  Claim C5, as stated: the command ends with a non-zero exit status when the number of
  arguments is not two and when the input directory does not exist. For a missing input
  directory \<^verbatim>\<open>process_data\<close> prints a line and returns, the script runs to its end and
  the exit status is 0.
\<close>

theorem ingest_main_missing_input_exits_zero:
  "snd (ingest_main (\<lambda>p. ''/work/'' @ p) (\<lambda>p. False) (\<lambda>i out. ([], Inr ()))
          [''ingest_data.py'', ''missing'', ''out'']) = 0"
  by (simp add: ingest_main_def process_data_def)

text \<open>
  Claim C5, amended: the command ends with exit status 1 when the number of command-line
  arguments is not exactly two; when the input directory does not exist it prints that
  the directory does not exist, ingests nothing and ends with exit status 0.
\<close>

theorem ingest_main_exit_status:
  "(length argv \<noteq> 3 \<longrightarrow> snd (ingest_main abspath exists ingest_all argv) = 1)
   \<and> (length argv = 3 \<and> \<not> exists (abspath (argv ! 1)) \<longrightarrow>
        ingest_main abspath exists ingest_all argv =
          ([''Unprocessed directory '' @ abspath (argv ! 1) @ '' does not exist''], 0))"
  by (simp add: ingest_main_def process_data_def)

theorem ingest_main_exit_status_witness:
  "snd (ingest_main (\<lambda>p. ''/work/'' @ p) (\<lambda>p. p = ''/work/in'') (\<lambda>i out. ([], Inr ()))
          [''ingest_data.py'', ''in'']) = 1
   \<and> ingest_main (\<lambda>p. ''/work/'' @ p) (\<lambda>p. p = ''/work/in'') (\<lambda>i out. ([], Inr ()))
          [''ingest_data.py'', ''missing'', ''out'']
       = ([''Unprocessed directory /work/missing does not exist''], 0)"
  using ingest_main_exit_status[of "[''ingest_data.py'', ''in'']" "\<lambda>p. ''/work/'' @ p"
          "\<lambda>p. p = ''/work/in''" "\<lambda>i out. ([], Inr ())"]
        ingest_main_exit_status[of "[''ingest_data.py'', ''missing'', ''out'']" "\<lambda>p. ''/work/'' @ p"
          "\<lambda>p. p = ''/work/in''" "\<lambda>i out. ([], Inr ())"]
  by simp

end
